theory Spec2Isabelle
  imports Main
begin

section \<open>JavaScript values used by rps_helper.js\<close>

text \<open>
  The values that flow through the choice and name positions of the program: a string,
  \<open>null\<close> or \<open>undefined\<close>. A string is the list of the bytes of its UTF-8 form; the
  three emoji literals of the source are kept as the bytes the source file holds for
  them.
\<close>

datatype jsval = JUndefined | JNull | JStr string

text \<open>\<open>String(v)\<close>, also what a template literal does with an interpolated value.\<close>

fun js_String :: "jsval \<Rightarrow> string" where
  "js_String JUndefined = ''undefined''"
| "js_String JNull = ''null''"
| "js_String (JStr s) = s"

text \<open>Truthiness, as tested by \<open>if (v)\<close>, \<open>!v\<close> and \<open>a && b\<close>.\<close>

fun truthy :: "jsval \<Rightarrow> bool" where
  "truthy JUndefined = False"
| "truthy JNull = False"
| "truthy (JStr s) = (s \<noteq> [])"

text \<open>A parameter with a default value: the default applies exactly to \<open>undefined\<close>.\<close>

fun with_default :: "jsval \<Rightarrow> string \<Rightarrow> string" where
  "with_default JUndefined d = d"
| "with_default v d = js_String v"

text \<open>
  \<open>toLowerCase\<close>. \<open>A\<close> .. \<open>Z\<close> move to \<open>a\<close> .. \<open>z\<close>. Two characters outside ASCII have a
  lower-case form with an ASCII letter in it: U+212A KELVIN SIGN (bytes E2 84 AA) becomes
  \<open>k\<close>, and U+0130 (bytes C4 B0) becomes \<open>i\<close> followed by U+0307 (bytes CC 87). Every
  other character outside ASCII is left as it is here: its lower-case form is outside
  ASCII as well, and the program only compares the result with ASCII words.
\<close>

definition lower_char :: "char \<Rightarrow> char" where
  "lower_char c =
     (let n = (of_char c :: nat) in if 65 \<le> n \<and> n \<le> 90 then char_of (n + 32) else c)"

fun toLowerCase :: "string \<Rightarrow> string" where
  "toLowerCase [] = []"
| "toLowerCase (a # cs) =
     (if a = CHR 0xE2 \<and> take 2 cs = [CHR 0x84, CHR 0xAA] then CHR ''k'' # toLowerCase (drop 2 cs)
      else if a = CHR 0xC4 \<and> take 1 cs = [CHR 0xB0]
        then CHR ''i'' # CHR 0xCC # CHR 0x87 # toLowerCase (drop 1 cs)
      else lower_char a # toLowerCase cs)"

section \<open>Game constants\<close>

definition ROCK :: string where "ROCK = ''rock''"
definition PAPER :: string where "PAPER = ''paper''"
definition SCISSORS :: string where "SCISSORS = ''scissors''"

text \<open>\<open>Object.values(RPS_CHOICES)\<close>, in insertion order.\<close>

definition RPS_CHOICES_values :: "string list" where
  "RPS_CHOICES_values = [ROCK, PAPER, SCISSORS]"

text \<open>
  The own properties of the objects \<open>RPS_EMOJIS\<close> and \<open>RPS_RULES\<close>; \<open>None\<close> for a key that
  is not one of them. What a lookup with such a key yields (\<open>undefined\<close>, or a property
  inherited from \<open>Object.prototype\<close>) is not modelled: the resolver looks up validated
  keys only, and the message texts below keep the key in place of the looked-up value.
\<close>

definition RPS_EMOJIS :: "string \<Rightarrow> string option" where
  "RPS_EMOJIS k =
     (if k = ROCK then Some (map char_of [239, 163, 191, 195, 188, 226, 132, 162, 194, 174 :: nat])
      else if k = PAPER then Some (map char_of [239, 163, 191, 195, 188, 195, 172, 195, 145 :: nat])
      else if k = SCISSORS then
        Some (map char_of [226, 128, 154, 195, 186, 195, 135, 195, 148, 226, 136, 143, 195, 168 :: nat])
      else None)"

record rule =
  beats :: string
  verb :: string

definition RPS_RULES :: "string \<Rightarrow> rule option" where
  "RPS_RULES k =
     (if k = ROCK then Some \<lparr>beats = SCISSORS, verb = ''crushes''\<rparr>
      else if k = PAPER then Some \<lparr>beats = ROCK, verb = ''covers''\<rparr>
      else if k = SCISSORS then Some \<lparr>beats = PAPER, verb = ''cuts''\<rparr>
      else None)"

section \<open>The outcome resolver\<close>

record outcome =
  result :: string
  description :: string

text \<open>
  The description of a win: \<open>`${name}'s ${RPS_EMOJIS[w]} ${RPS_RULES[w].verb} ${RPS_EMOJIS[l]}!`\<close>.
  It is only built for a winner \<open>w\<close> and a loser \<open>l\<close> that passed the membership test, so
  the three lookups are of own properties; the \<open>None\<close> branches are never taken (lemma
  \<open>win_description_defined\<close>).
\<close>

definition win_description :: "string \<Rightarrow> string \<Rightarrow> string \<Rightarrow> string option" where
  "win_description name w l =
     (case RPS_RULES w of
        None \<Rightarrow> None
      | Some r \<Rightarrow>
          (case RPS_EMOJIS w of
             None \<Rightarrow> None
           | Some ew \<Rightarrow>
               (case RPS_EMOJIS l of
                  None \<Rightarrow> None
                | Some el \<Rightarrow>
                    Some (name @ [CHR 0x27] @ ''s '' @ ew @ '' '' @ verb r @ '' '' @ el @ ''!''))))"

definition determineRPSOutcome :: "jsval \<Rightarrow> jsval \<Rightarrow> jsval \<Rightarrow> jsval \<Rightarrow> outcome" where
  "determineRPSOutcome player1ChoiceKey player2ChoiceKey player1NameHtml player2NameHtml =
     (let p1c = toLowerCase (js_String player1ChoiceKey);
          p2c = toLowerCase (js_String player2ChoiceKey)
      in if p1c \<notin> set RPS_CHOICES_values \<or> p2c \<notin> set RPS_CHOICES_values then
           \<lparr>result = ''error'', description = ''An internal error occurred.''\<rparr>
         else if p1c = p2c then
           \<lparr>result = ''draw'', description = ''It'' @ [CHR 0x27] @ ''s a Draw!''\<rparr>
         else if (case RPS_RULES p1c of None \<Rightarrow> False | Some r \<Rightarrow> beats r = p2c) then
           \<lparr>result = ''win_player1'',
            description = the (win_description (with_default player1NameHtml ''Player 1'') p1c p2c)\<rparr>
         else
           \<lparr>result = ''win_player2'',
            description = the (win_description (with_default player2NameHtml ''Player 2'') p2c p1c)\<rparr>)"

text \<open>
  The relation the specification words: rock beats scissors, scissors beats paper, paper
  beats rock. It is written from the specification's sentence, to be compared with what
  \<open>RPS_RULES\<close> makes the resolver do.
\<close>

definition spec_beats :: "string \<Rightarrow> string \<Rightarrow> bool" where
  "spec_beats a b \<longleftrightarrow>
     (a = ''rock'' \<and> b = ''scissors'') \<or> (a = ''scissors'' \<and> b = ''paper'')
     \<or> (a = ''paper'' \<and> b = ''rock'')"

definition is_choice :: "string \<Rightarrow> bool" where
  "is_choice a \<longleftrightarrow> a \<in> set RPS_CHOICES_values"

section \<open>Sessions, the in-memory table and the datastore\<close>

text \<open>
  \<open>GameState\<close> is the blob \<open>session.game_state_json\<close>. Fields the upstream service may
  leave out are \<open>jsval\<close>s, \<open>JUndefined\<close> when absent. \<open>bot_choice\<close> only exists in the
  snapshot a player-versus-bot game is finalized with.
\<close>

record game_state =
  status :: jsval
  initiatorName :: jsval
  opponentName :: jsval
  helperMessageId :: "int option"
  p1_choice :: jsval
  p2_choice :: jsval
  bot_choice :: jsval

text \<open>
  A row of \<open>rps_sessions\<close>, which is also the session object held in memory (the row a
  claim returns, with the property \<open>timeoutId\<close> the program adds to it). Actor ids are
  kept in the form \<open>String(id)\<close> gives them, the only form the program compares;
  \<open>opponent_id\<close> is \<open>None\<close> while the column is NULL. \<open>row_status\<close> is the column
  \<open>status\<close>; \<open>status\<close> above is \<open>GameState.status\<close>. The timestamp columns are left out.
  \<open>timeoutId\<close> is the handle \<open>setTimeout\<close> returned, \<open>None\<close> before any timer was armed.
\<close>

record session =
  session_id :: int
  main_bot_game_id :: string
  chat_id :: int
  initiator_id :: string
  opponent_id :: "string option"
  helper_bot_id :: "string option"
  row_status :: string
  game_state_json :: game_state
  timeoutId :: "nat option"

text \<open>\<open>String(session.opponent_id)\<close>.\<close>

fun String_id :: "string option \<Rightarrow> string" where
  "String_id None = ''null''"
| "String_id (Some s) = s"

text \<open>\<open>if (session.opponent_id)\<close>: NULL and the empty string are falsy.\<close>

fun id_truthy :: "string option \<Rightarrow> bool" where
  "id_truthy None = False"
| "id_truthy (Some s) = (s \<noteq> [])"

text \<open>The lines written with \<open>console.log\<close> and \<open>console.error\<close>.\<close>

datatype log_entry =
    LogFinalizing int string
  | LogCriticalWriteFailed int
  | LogSendFailed string
  | LogNewSessionError string

text \<open>
  The calls the chat transport accepted. A rendered text is kept as its kind and the
  values interpolated into it; where the text interpolates \<open>RPS_EMOJIS[choice]\<close> the
  choice is kept.
\<close>

datatype message_text =
    TxtOfferExpired
  | TxtPlayerTimedOut
  | TxtDuelTimedOut
  | TxtPvBStart string
  | TxtDuelStarted string string
  | TxtDuelReady string
  | TxtDeclined string
  | TxtPvBResult string string string
  | TxtPvPResult string string string string string
  | TxtChoiceLocked

datatype chat_ref = ChatOf int | DirectTo string

datatype bot_call =
    AnswerCallbackQuery string "string option"
  | EditMessageText message_text chat_ref "int option" bool
  | DeleteMessage int "int option"
  | SendMessage string message_text

text \<open>The statements sent to the datastore, in order.\<close>

datatype sql_stmt =
    SqlBegin
  | SqlClaimUpdate string string
  | SqlCommit
  | SqlRollback
  | SqlFinalUpdate int string

text \<open>
  The state of one worker process and of the datastore it shares: the map
  \<open>activeHelperGames\<close>, the table \<open>rps_sessions\<close>, the pending single-shot timers (a
  handle maps to the arguments its callback passes to \<open>handleGameTimeout\<close>), and the
  traces of what was logged, sent and queried.
\<close>

record world =
  activeHelperGames :: "int \<rightharpoonup> session"
  rps_sessions :: "session list"
  timers :: "nat \<rightharpoonup> int \<times> string"
  next_timer :: nat
  console :: "log_entry list"
  transport :: "bot_call list"
  sql :: "sql_stmt list"

definition bot_call :: "bot_call \<Rightarrow> world \<Rightarrow> world" where
  "bot_call c w = w\<lparr>transport := transport w @ [c]\<rparr>"

definition setTimeout :: "int \<Rightarrow> string \<Rightarrow> world \<Rightarrow> nat \<times> world" where
  "setTimeout sessionId tag w =
     (next_timer w,
      w\<lparr>timers := (timers w)(next_timer w \<mapsto> (sessionId, tag)), next_timer := Suc (next_timer w)\<rparr>)"

definition clearTimeout :: "nat \<Rightarrow> world \<Rightarrow> world" where
  "clearTimeout h w = w\<lparr>timers := (timers w)(h := None)\<rparr>"

section \<open>Utility functions\<close>

definition escape_char :: "char \<Rightarrow> string" where
  "escape_char c =
     (if c = CHR ''&'' then ''&amp;''
      else if c = CHR ''<'' then ''&lt;''
      else if c = CHR ''>'' then ''&gt;''
      else if c = CHR 0x22 then ''&quot;''
      else if c = CHR 0x27 then ''&#039;''
      else [c])"

fun escapeHTML :: "jsval \<Rightarrow> string" where
  "escapeHTML JNull = []"
| "escapeHTML JUndefined = []"
| "escapeHTML (JStr s) = concat (map escape_char s)"

text \<open>
  The sender of a callback: \<open>uid\<close> is \<open>String(from.id)\<close>, the decimal form of a non-zero
  number.
\<close>

record user =
  uid :: string
  username :: jsval
  first_name :: jsval

definition slice_last4 :: "string \<Rightarrow> string" where
  "slice_last4 s = drop (length s - 4) s"

fun getPlayerDisplayReference :: "user option \<Rightarrow> string" where
  "getPlayerDisplayReference None = ''Mystery Player''"
| "getPlayerDisplayReference (Some u) =
     (if truthy (username u) then ''@'' @ js_String (username u)
      else if truthy (first_name u) then js_String (first_name u)
      else ''Player '' @ slice_last4 (uid u))"

text \<open>
  \<open>safeSendMessage\<close> catches a failed send and logs it; \<open>send_ok\<close> says whether the
  transport accepted the message.
\<close>

definition safeSendMessage :: "bool \<Rightarrow> string \<Rightarrow> message_text \<Rightarrow> world \<Rightarrow> world" where
  "safeSendMessage send_ok chatId txt w =
     (if send_ok then bot_call (SendMessage chatId txt) w
      else w\<lparr>console := console w @ [LogSendFailed chatId]\<rparr>)"

text \<open>
  \<open>getRandomRPSChoice\<close>: \<open>r\<close> is the value of
  \<open>Math.floor(Math.random() * choicesArray.length)\<close>, one of 0, 1, 2.
\<close>

definition getRandomRPSChoice :: "nat \<Rightarrow> string" where
  "getRandomRPSChoice r = RPS_CHOICES_values ! (r mod length RPS_CHOICES_values)"

section \<open>The finalizer\<close>

text \<open>
  \<open>write_ok\<close> says whether \<open>pool.query\<close> resolved. The removal from the table is the
  statement after the awaited query inside the \<open>try\<close> block, so a query that throws
  skips it and control passes to the \<open>catch\<close>, which only logs.
\<close>

definition final_update :: "int \<Rightarrow> string \<Rightarrow> game_state \<Rightarrow> session list \<Rightarrow> session list" where
  "final_update sessionId finalStatus finalGameState rows =
     map (\<lambda>r. if session_id r = sessionId
               then r\<lparr>row_status := finalStatus, game_state_json := finalGameState\<rparr> else r) rows"

definition finalizeAndRecordOutcome :: "bool \<Rightarrow> int \<Rightarrow> string \<Rightarrow> game_state \<Rightarrow> world \<Rightarrow> world" where
  "finalizeAndRecordOutcome write_ok sessionId finalStatus finalGameState w =
     (let w1 = w\<lparr>console := console w @ [LogFinalizing sessionId finalStatus],
                 sql := sql w @ [SqlFinalUpdate sessionId finalStatus]\<rparr>
      in if write_ok then
           w1\<lparr>rps_sessions := final_update sessionId finalStatus finalGameState (rps_sessions w1),
              activeHelperGames := (activeHelperGames w1)(sessionId := None)\<rparr>
         else w1\<lparr>console := console w1 @ [LogCriticalWriteFailed sessionId]\<rparr>)"

section \<open>Core game logic\<close>

text \<open>
  What the environment decides during one event: whether the finalizer's write resolves,
  whether the awaited \<open>answerCallbackQuery\<close> resolves, whether the first and the second
  awaited \<open>editMessageText\<close> of the event resolve (no event makes more than two), whether
  each of the two direct messages is accepted, and the index \<open>getRandomRPSChoice\<close>
  draws.
\<close>

record env =
  write_ok :: bool
  answer_ok :: bool
  edit_ok :: bool
  edit2_ok :: bool
  p1_dm_ok :: bool
  p2_dm_ok :: bool
  rnd :: nat

text \<open>
  \<open>await bot.call(...)\<close> with no \<open>try\<close> around it: when the call resolves it is recorded
  and the handler goes on with \<open>rest\<close>; when it rejects, the handler ends there, with
  the state as it is. (What the runtime does with the rejected promise of the handler is
  outside the model.) \<open>deleteMessage\<close> is called with \<open>.catch(() => {})\<close>, so the handler
  goes on either way; that call is recorded whether or not it is accepted.

  A handler is run here from its start to its end with no other event handled while it
  is suspended at an \<open>await\<close>. The one schedule in which two handlers overlap that is
  written out is \<open>overlapped_submits\<close> below, for two choice submissions.
\<close>

definition awaited :: "bool \<Rightarrow> bot_call \<Rightarrow> (world \<Rightarrow> world) \<Rightarrow> world \<Rightarrow> world" where
  "awaited ok c rest w = (if ok then rest (bot_call c w) else w)"

definition store_session :: "int \<Rightarrow> session \<Rightarrow> world \<Rightarrow> world" where
  "store_session k s w = w\<lparr>activeHelperGames := (activeHelperGames w)(k \<mapsto> s)\<rparr>"

definition runRPSPvB :: "env \<Rightarrow> session \<Rightarrow> world \<Rightarrow> world" where
  "runRPSPvB env session w =
     (let gameState = game_state_json session;
          playerRefHTML = escapeHTML (initiatorName gameState);
          session1 = session\<lparr>game_state_json :=
                       gameState\<lparr>status := JStr ''pvb_awaiting_player_choice''\<rparr>\<rparr>;
          w1 = store_session (session_id session) session1 w
      in awaited (edit_ok env)
           (EditMessageText (TxtPvBStart playerRefHTML) (ChatOf (chat_id session))
              (helperMessageId gameState) True)
           (\<lambda>w2. case setTimeout (session_id session) ''pvb_player_turn'' w2 of
                    (h, w3) \<Rightarrow>
                      store_session (session_id session) (session1\<lparr>timeoutId := Some h\<rparr>) w3)
           w1)"

definition runRPSPvP :: "env \<Rightarrow> session \<Rightarrow> world \<Rightarrow> world" where
  "runRPSPvP env session w =
     (let gameState = game_state_json session;
          p1_id = initiator_id session;
          p2_id = String_id (opponent_id session);
          p1_name = escapeHTML (initiatorName gameState);
          p2_name = escapeHTML (opponentName gameState);
          session1 = session\<lparr>game_state_json :=
                       gameState\<lparr>status := JStr ''pvp_awaiting_choices'',
                                 p1_choice := JNull, p2_choice := JNull\<rparr>\<rparr>;
          w1 = store_session (session_id session) session1 w
      in awaited (edit_ok env)
           (EditMessageText (TxtDuelStarted p1_name p2_name) (ChatOf (chat_id session))
              (helperMessageId gameState) False)
           (\<lambda>w2. let w3 = safeSendMessage (p1_dm_ok env) p1_id (TxtDuelReady p2_name) w2;
                     w4 = safeSendMessage (p2_dm_ok env) p2_id (TxtDuelReady p1_name) w3
                 in case setTimeout (session_id session) ''pvp_choices'' w4 of
                      (h, w5) \<Rightarrow>
                        store_session (session_id session) (session1\<lparr>timeoutId := Some h\<rparr>) w5)
           w1)"

definition handleGameTimeout :: "env \<Rightarrow> int \<Rightarrow> string \<Rightarrow> world \<Rightarrow> world" where
  "handleGameTimeout env sessionId context w =
     (case activeHelperGames w sessionId of
        None \<Rightarrow> w
      | Some session \<Rightarrow>
          (let gs = game_state_json session;
               target = ChatOf (chat_id session)
           in if context = ''offer'' then
                awaited (edit_ok env)
                  (EditMessageText TxtOfferExpired target (helperMessageId gs) False)
                  (finalizeAndRecordOutcome (write_ok env) sessionId ''completed_timeout'' gs) w
              else if context = ''pvb_player_turn'' then
                awaited (edit_ok env)
                  (EditMessageText TxtPlayerTimedOut target (helperMessageId gs) False)
                  (finalizeAndRecordOutcome (write_ok env) sessionId ''completed_bot_win'' gs) w
              else if context = ''pvp_choices'' then
                awaited (edit_ok env)
                  (EditMessageText TxtDuelTimedOut target (helperMessageId gs) False)
                  (finalizeAndRecordOutcome (write_ok env) sessionId ''completed_push'' gs) w
              else w))"

text \<open>
  The runtime's part of a single-shot timer: a pending handle, when it expires, is
  removed and its callback \<open>() => handleGameTimeout(session.session_id, tag)\<close> runs. A
  handle that was cleared is no longer pending and never runs.
\<close>

definition timer_expires :: "env \<Rightarrow> nat \<Rightarrow> world \<Rightarrow> world" where
  "timer_expires env h w =
     (case timers w h of
        None \<Rightarrow> w
      | Some (sessionId, tag) \<Rightarrow> handleGameTimeout env sessionId tag (clearTimeout h w))"

section \<open>Claiming a new session\<close>

text \<open>
  \<open>fault\<close> names the first awaited datastore call of \<open>handleNewGameSession\<close> that throws,
  if one does. A \<open>ROLLBACK\<close> and \<open>client.release()\<close> are taken not to throw.
\<close>

datatype db_fault = NoFault | ConnectFails | BeginFails | UpdateFails | CommitFails

definition claimable :: "string \<Rightarrow> session \<Rightarrow> bool" where
  "claimable mainBotGameId r \<longleftrightarrow>
     main_bot_game_id r = mainBotGameId \<and> row_status r = ''pending_pickup''"

definition claimed :: "string \<Rightarrow> session \<Rightarrow> session" where
  "claimed botId r = r\<lparr>row_status := ''in_progress'', helper_bot_id := Some botId\<rparr>"

text \<open>The conditional \<open>UPDATE ... RETURNING *\<close>: the table after it and the rows it returns.\<close>

definition claim_update :: "string \<Rightarrow> string \<Rightarrow> session list \<Rightarrow> session list \<times> session list" where
  "claim_update botId mainBotGameId rows =
     (map (\<lambda>r. if claimable mainBotGameId r then claimed botId r else r) rows,
      map (claimed botId) (filter (claimable mainBotGameId) rows))"

definition log_sql :: "sql_stmt list \<Rightarrow> world \<Rightarrow> world" where
  "log_sql qs w = w\<lparr>sql := sql w @ qs\<rparr>"

definition new_session_error :: "string \<Rightarrow> world \<Rightarrow> world" where
  "new_session_error mainBotGameId w =
     w\<lparr>console := console w @ [LogNewSessionError mainBotGameId]\<rparr>"

text \<open>
  \<open>runDirectChallenge\<close> and \<open>runUnifiedOffer\<close> are called by \<open>handleNewGameSession\<close> and
  defined nowhere in rps_helper.js, so they are parameters here: each takes the claimed
  session and the world and returns the world it leaves, or \<open>None\<close> when it throws.
  \<open>BOT_ID\<close> is the part of the bot token before its first colon, a parameter as well.
\<close>

type_synonym mode_entry = "session \<Rightarrow> world \<Rightarrow> world option"

definition handleNewGameSession ::
  "string \<Rightarrow> mode_entry \<Rightarrow> mode_entry \<Rightarrow> db_fault \<Rightarrow> string \<Rightarrow> world \<Rightarrow> world" where
  "handleNewGameSession BOT_ID runDirectChallenge runUnifiedOffer fault mainBotGameId w =
     (if fault = ConnectFails then new_session_error mainBotGameId w
      else if fault = BeginFails then
        new_session_error mainBotGameId (log_sql [SqlBegin, SqlRollback] w)
      else if fault = UpdateFails then
        new_session_error mainBotGameId
          (log_sql [SqlBegin, SqlClaimUpdate BOT_ID mainBotGameId, SqlRollback] w)
      else
        (case claim_update BOT_ID mainBotGameId (rps_sessions w) of
           (rows', returned) \<Rightarrow>
             (case returned of
                [] \<Rightarrow> log_sql [SqlBegin, SqlClaimUpdate BOT_ID mainBotGameId, SqlRollback] w
              | session # _ \<Rightarrow>
                  if fault = CommitFails then
                    new_session_error mainBotGameId
                      (log_sql [SqlBegin, SqlClaimUpdate BOT_ID mainBotGameId, SqlCommit, SqlRollback] w)
                  else
                    (let w1 = log_sql [SqlBegin, SqlClaimUpdate BOT_ID mainBotGameId, SqlCommit] w;
                         w2 = w1\<lparr>rps_sessions := rows'\<rparr>;
                         w3 = store_session (session_id session) session w2
                     in case (if id_truthy (opponent_id session)
                              then runDirectChallenge session w3
                              else runUnifiedOffer session w3) of
                          Some w4 \<Rightarrow> w4
                        | None \<Rightarrow> new_session_error mainBotGameId (log_sql [SqlRollback] w3)))))"

section \<open>The callback handler\<close>

text \<open>\<open>data.split(':')\<close>: the result always has at least one element.\<close>

fun split_colon :: "string \<Rightarrow> string list" where
  "split_colon [] = [[]]"
| "split_colon (c # cs) =
     (if c = CHR '':'' then [] # split_colon cs
      else (case split_colon cs of [] \<Rightarrow> [[c]] | p # ps \<Rightarrow> (c # p) # ps))"

text \<open>
  A JavaScript number is a double. A natural number of at most 53 bits is one exactly; a
  longer one is rounded to the nearest number with 53 significant bits, a tie going to
  the even one, and becomes \<open>Infinity\<close> when the rounded number has more than 1024 bits.
  \<open>None\<close> stands for \<open>Infinity\<close>.
\<close>

fun bit_length :: "nat \<Rightarrow> nat" where
  "bit_length n = (if n = 0 then 0 else Suc (bit_length (n div 2)))"

declare bit_length.simps [simp del]

definition to_double :: "nat \<Rightarrow> nat option" where
  "to_double n =
     (if bit_length n \<le> 53 then Some n
      else (let sh = bit_length n - 53;
                q = n div 2 ^ sh;
                r = n mod 2 ^ sh;
                half = 2 ^ (sh - 1);
                v = (if half < r \<or> (r = half \<and> odd q) then q + 1 else q) * 2 ^ sh
            in if bit_length v \<le> 1024 then Some v else None))"

text \<open>
  \<open>parseInt(s, 10)\<close>: leading white space is skipped, one sign is read, then the longest
  run of decimal digits, whose value is rounded to a double. No digit gives \<open>NaN\<close>, and
  more digits than a double can hold give an infinity; both are \<open>None\<close> here, a key
  under which the table, whose keys are the integer ids of rows, holds no session.
\<close>

definition is_space :: "char \<Rightarrow> bool" where
  "is_space c \<longleftrightarrow> (of_char c :: nat) \<in> {9, 10, 11, 12, 13, 32}"

definition is_digit :: "char \<Rightarrow> bool" where
  "is_digit c \<longleftrightarrow> 48 \<le> (of_char c :: nat) \<and> (of_char c :: nat) \<le> 57"

fun digits_value :: "nat \<Rightarrow> string \<Rightarrow> nat" where
  "digits_value acc [] = acc"
| "digits_value acc (c # cs) = digits_value (10 * acc + (of_char c - 48)) cs"

definition parseInt10 :: "string \<Rightarrow> int option" where
  "parseInt10 s =
     (let t = dropWhile is_space s;
          neg = (case t of [] \<Rightarrow> False | c # _ \<Rightarrow> c = CHR ''-'');
          u = (case t of [] \<Rightarrow> [] | c # r \<Rightarrow> if c = CHR ''-'' \<or> c = CHR ''+'' then r else t);
          ds = takeWhile is_digit u
      in if ds = [] then None
         else map_option (\<lambda>v. if neg then - int v else int v) (to_double (digits_value 0 ds)))"

text \<open>
  \<open>const [action, sessionIdStr, ...params] = data.split(':')\<close> and
  \<open>parseInt(sessionIdStr, 10)\<close>; a missing second field is \<open>undefined\<close>, which
  \<open>parseInt\<close> reads as the string \<open>undefined\<close>.
\<close>

definition decode_data :: "string \<Rightarrow> string \<times> int option \<times> string list" where
  "decode_data d =
     (case split_colon d of
        [] \<Rightarrow> ([], parseInt10 ''undefined'', [])
      | [action] \<Rightarrow> (action, parseInt10 ''undefined'', [])
      | action # sessionIdStr # params \<Rightarrow> (action, parseInt10 sessionIdStr, params))"

text \<open>\<open>params[0]\<close>.\<close>

fun param0 :: "string list \<Rightarrow> jsval" where
  "param0 [] = JUndefined"
| "param0 (p # ps) = JStr p"

record callback_query =
  cq_id :: string
  cq_data :: string
  cq_from :: user
  cq_message_id :: int

text \<open>The two ternaries that turn the resolver's \<open>result\<close> into the terminal status.\<close>

definition pvb_finalStatus :: "string \<Rightarrow> string" where
  "pvb_finalStatus r =
     (if r = ''win_player1'' then ''completed_p1_win''
      else if r = ''draw'' then ''completed_push'' else ''completed_bot_win'')"

definition pvp_finalStatus :: "string \<Rightarrow> string" where
  "pvp_finalStatus r =
     (if r = ''win_player1'' then ''completed_p1_win''
      else if r = ''win_player2'' then ''completed_p2_win'' else ''completed_push'')"

text \<open>The branch \<open>rps_helper_pvb_choice\<close>.\<close>

definition pvb_choice ::
  "env \<Rightarrow> callback_query \<Rightarrow> string list \<Rightarrow> int \<Rightarrow> session \<Rightarrow> world \<Rightarrow> world" where
  "pvb_choice env callbackQuery params sessionId session w =
     (let clickerId = uid (cq_from callbackQuery);
          gameState = game_state_json session
      in if clickerId = initiator_id session then
           awaited (answer_ok env) (AnswerCallbackQuery (cq_id callbackQuery) None)
             (\<lambda>w1. let playerChoice = param0 params;
                       botChoice = getRandomRPSChoice (rnd env);
                       outcome = determineRPSOutcome playerChoice (JStr botChoice)
                                   (initiatorName gameState) (JStr ''Bot'');
                       finalStatus = pvb_finalStatus (result outcome)
                   in awaited (edit_ok env)
                        (EditMessageText
                           (TxtPvBResult (js_String playerChoice) botChoice (description outcome))
                           (ChatOf (chat_id session)) (helperMessageId gameState) False)
                        (finalizeAndRecordOutcome (write_ok env) sessionId finalStatus
                           (gameState\<lparr>p1_choice := playerChoice, bot_choice := JStr botChoice\<rparr>))
                        w1)
             w
         else w)"

text \<open>The branch \<open>rps_helper_pvp_submit\<close>; \<open>playerKey\<close> is one of the two field names or null.\<close>

datatype player_key = P1_choice | P2_choice

fun get_choice :: "player_key \<Rightarrow> game_state \<Rightarrow> jsval" where
  "get_choice P1_choice gs = p1_choice gs"
| "get_choice P2_choice gs = p2_choice gs"

fun set_choice :: "player_key \<Rightarrow> jsval \<Rightarrow> game_state \<Rightarrow> game_state" where
  "set_choice P1_choice v gs = gs\<lparr>p1_choice := v\<rparr>"
| "set_choice P2_choice v gs = gs\<lparr>p2_choice := v\<rparr>"

definition player_key_of :: "string \<Rightarrow> session \<Rightarrow> player_key option" where
  "player_key_of clickerId session =
     (if clickerId = initiator_id session then Some P1_choice
      else if clickerId = String_id (opponent_id session) then Some P2_choice
      else None)"

definition pvp_resolve :: "env \<Rightarrow> int \<Rightarrow> session \<Rightarrow> game_state \<Rightarrow> world \<Rightarrow> world" where
  "pvp_resolve env sessionId session gameState w =
     (let w1 = (case timeoutId session of None \<Rightarrow> w | Some h \<Rightarrow> clearTimeout h w);
          p1_name = escapeHTML (initiatorName gameState);
          p2_name = escapeHTML (opponentName gameState);
          outcome = determineRPSOutcome (p1_choice gameState) (p2_choice gameState)
                      (JStr p1_name) (JStr p2_name);
          finalStatus = pvp_finalStatus (result outcome)
      in awaited (edit2_ok env)
           (EditMessageText
              (TxtPvPResult p1_name (js_String (p1_choice gameState))
                 p2_name (js_String (p2_choice gameState)) (description outcome))
              (ChatOf (chat_id session)) (helperMessageId gameState) False)
           (finalizeAndRecordOutcome (write_ok env) sessionId finalStatus gameState) w1)"

definition pvp_submit ::
  "env \<Rightarrow> callback_query \<Rightarrow> string list \<Rightarrow> int \<Rightarrow> session \<Rightarrow> world \<Rightarrow> world" where
  "pvp_submit env callbackQuery params sessionId session w =
     (let clickerId = uid (cq_from callbackQuery);
          gameState = game_state_json session;
          choice = param0 params
      in case player_key_of clickerId session of
           Some playerKey \<Rightarrow>
             if \<not> truthy (get_choice playerKey gameState) then
               (let gameState1 = set_choice playerKey choice gameState;
                    session1 = session\<lparr>game_state_json := gameState1\<rparr>;
                    w1 = store_session sessionId session1 w
                in awaited (answer_ok env)
                     (AnswerCallbackQuery (cq_id callbackQuery) (Some ''Your choice is locked in!''))
                     (awaited (edit_ok env)
                        (EditMessageText TxtChoiceLocked (DirectTo clickerId)
                           (Some (cq_message_id callbackQuery)) False)
                        (\<lambda>w3. if truthy (p1_choice gameState1) \<and> truthy (p2_choice gameState1)
                              then pvp_resolve env sessionId session1 gameState1 w3
                              else w3))
                     w1)
             else awaited (answer_ok env)
                    (AnswerCallbackQuery (cq_id callbackQuery)
                       (Some ''You have already made a choice.'')) (\<lambda>w1. w1) w
         | None \<Rightarrow> awaited (answer_ok env)
                    (AnswerCallbackQuery (cq_id callbackQuery)
                       (Some ''You have already made a choice.'')) (\<lambda>w1. w1) w)"

text \<open>
  The handler of \<open>callback_query\<close>. The timer is cleared right after the session is
  found, before the action and the sender are looked at. A mutation of the session
  object is written back under the key it was found at. In the branch
  \<open>cf_helper_accept_pvp\<close> the opponent is written before the awaited answer, as in the
  source.
\<close>

definition dispatch ::
  "env \<Rightarrow> callback_query \<Rightarrow> string \<Rightarrow> string list \<Rightarrow> int \<Rightarrow> session \<Rightarrow> world \<Rightarrow> world" where
  "dispatch env callbackQuery action params sessionId session w =
     (let clickerId = uid (cq_from callbackQuery);
          gameState = game_state_json session;
          answer = awaited (answer_ok env) (AnswerCallbackQuery (cq_id callbackQuery) None)
      in if action = ''cf_helper_cancel'' \<and> clickerId = initiator_id session then
           answer
             (\<lambda>w1. finalizeAndRecordOutcome (write_ok env) sessionId ''completed_cancelled'' gameState
                     (bot_call (DeleteMessage (chat_id session) (helperMessageId gameState)) w1))
             w
         else if action = ''cf_helper_accept_bot'' \<and> clickerId = initiator_id session then
           answer (runRPSPvB env session) w
         else if action = ''cf_helper_accept_pvp'' \<and> clickerId \<noteq> initiator_id session then
           (let session1 = session\<lparr>opponent_id := Some clickerId,
                             game_state_json := gameState\<lparr>opponentName :=
                               JStr (getPlayerDisplayReference (Some (cq_from callbackQuery)))\<rparr>\<rparr>
            in answer (runRPSPvP env session1) (store_session sessionId session1 w))
         else if action = ''cf_helper_accept_direct'' \<and> clickerId = String_id (opponent_id session) then
           answer (runRPSPvP env session) w
         else if action = ''cf_helper_decline_direct'' \<and> clickerId = String_id (opponent_id session) then
           answer
             (awaited (edit_ok env)
                (EditMessageText (TxtDeclined (escapeHTML (opponentName gameState)))
                   (ChatOf (chat_id session)) (helperMessageId gameState) False)
                (finalizeAndRecordOutcome (write_ok env) sessionId ''completed_cancelled'' gameState))
             w
         else if action = ''rps_helper_pvb_choice'' then
           pvb_choice env callbackQuery params sessionId session w
         else if action = ''rps_helper_pvp_submit'' then
           pvp_submit env callbackQuery params sessionId session w
         else w)"

definition no_longer_active :: "env \<Rightarrow> callback_query \<Rightarrow> world \<Rightarrow> world" where
  "no_longer_active env callbackQuery w =
     awaited (answer_ok env)
       (AnswerCallbackQuery (cq_id callbackQuery) (Some ''This game is no longer active.''))
       (\<lambda>w1. w1) w"

definition on_callback_query :: "env \<Rightarrow> callback_query \<Rightarrow> world \<Rightarrow> world" where
  "on_callback_query env callbackQuery w =
     (case decode_data (cq_data callbackQuery) of
        (action, sid, params) \<Rightarrow>
          (case sid of
             None \<Rightarrow> no_longer_active env callbackQuery w
           | Some sessionId \<Rightarrow>
               (case activeHelperGames w sessionId of
                  None \<Rightarrow> no_longer_active env callbackQuery w
                | Some session \<Rightarrow>
                    dispatch env callbackQuery action params sessionId session
                      (case timeoutId session of None \<Rightarrow> w | Some h \<Rightarrow> clearTimeout h w))))"

text \<open>
  The branch \<open>rps_helper_pvp_submit\<close> cut at its first \<open>await\<close>. \<open>pvp_submit_begin\<close> is
  what runs before the handler is suspended: it says whether the submission is taken,
  and gives the session object and the world as they are then. \<open>pvp_submit_resume\<close> is
  the rest; the test \<open>gameState.p1_choice && gameState.p2_choice\<close> reads the session
  object as it is when the handler resumes.
\<close>

definition pvp_submit_begin ::
  "callback_query \<Rightarrow> string list \<Rightarrow> int \<Rightarrow> session \<Rightarrow> world \<Rightarrow> bool \<times> session \<times> world" where
  "pvp_submit_begin callbackQuery params sessionId session w =
     (let clickerId = uid (cq_from callbackQuery);
          gameState = game_state_json session;
          choice = param0 params
      in case player_key_of clickerId session of
           Some playerKey \<Rightarrow>
             if \<not> truthy (get_choice playerKey gameState) then
               (let session1 = session\<lparr>game_state_json := set_choice playerKey choice gameState\<rparr>
                in (True, session1, store_session sessionId session1 w))
             else (False, session, w)
         | None \<Rightarrow> (False, session, w))"

definition pvp_submit_resume ::
  "env \<Rightarrow> callback_query \<Rightarrow> int \<Rightarrow> bool \<Rightarrow> session \<Rightarrow> world \<Rightarrow> world" where
  "pvp_submit_resume env callbackQuery sessionId taken session w =
     (let clickerId = uid (cq_from callbackQuery);
          gameState = game_state_json session
      in if taken then
           awaited (answer_ok env)
             (AnswerCallbackQuery (cq_id callbackQuery) (Some ''Your choice is locked in!''))
             (awaited (edit_ok env)
                (EditMessageText TxtChoiceLocked (DirectTo clickerId)
                   (Some (cq_message_id callbackQuery)) False)
                (\<lambda>w3. if truthy (p1_choice gameState) \<and> truthy (p2_choice gameState)
                      then pvp_resolve env sessionId session gameState w3
                      else w3))
             w
         else awaited (answer_ok env)
                (AnswerCallbackQuery (cq_id callbackQuery)
                   (Some ''You have already made a choice.'')) (\<lambda>w1. w1) w)"

text \<open>
  Two choice submissions for the session found at \<open>sessionId\<close>, the second one handled
  while the first is suspended at its first \<open>await\<close>; the first then runs to its end
  before the second resumes. Both handlers hold the same session object, so each of
  them, when it resumes, reads the choice fields as the other one left them.
\<close>

definition overlapped_submits ::
  "env \<Rightarrow> callback_query \<Rightarrow> env \<Rightarrow> callback_query \<Rightarrow> int \<Rightarrow> world \<Rightarrow> world" where
  "overlapped_submits envA cqA envB cqB sessionId w =
     (case activeHelperGames w sessionId of
        None \<Rightarrow> w
      | Some session \<Rightarrow>
          (let w0 = (case timeoutId session of None \<Rightarrow> w | Some h \<Rightarrow> clearTimeout h w)
           in case pvp_submit_begin cqA (snd (snd (decode_data (cq_data cqA)))) sessionId session w0 of
                (takenA, sessionA, w1) \<Rightarrow>
                  (let w2 = (case timeoutId sessionA of None \<Rightarrow> w1 | Some h \<Rightarrow> clearTimeout h w1)
                   in case pvp_submit_begin cqB (snd (snd (decode_data (cq_data cqB)))) sessionId
                             sessionA w2 of
                        (takenB, sessionB, w3) \<Rightarrow>
                          pvp_submit_resume envB cqB sessionId takenB sessionB
                            (pvp_submit_resume envA cqA sessionId takenA sessionB w3))))"

section \<open>Observations and sample states\<close>

text \<open>The finalizer's writes among the statements sent so far: session id and status.\<close>

fun final_writes :: "sql_stmt list \<Rightarrow> (int \<times> string) list" where
  "final_writes [] = []"
| "final_writes (SqlFinalUpdate i st # qs) = (i, st) # final_writes qs"
| "final_writes (q # qs) = final_writes qs"

text \<open>A run of the handler over a list of events, each with what the environment decides.\<close>

fun run_callbacks :: "(env \<times> callback_query) list \<Rightarrow> world \<Rightarrow> world" where
  "run_callbacks [] w = w"
| "run_callbacks ((env, cq) # evs) w = run_callbacks evs (on_callback_query env cq w)"

text \<open>
  A sample session, claimed from an open offer by user 100, in a world that holds
  nothing else; a sample environment, in which every call to the transport resolves; a
  callback with data \<open>d\<close> sent by user \<open>u\<close>.
\<close>

definition sample_state :: game_state where
  "sample_state = \<lparr>status = JUndefined, initiatorName = JStr ''alice'', opponentName = JUndefined,
     helperMessageId = Some 7, p1_choice = JUndefined, p2_choice = JUndefined,
     bot_choice = JUndefined\<rparr>"

definition sample_session :: session where
  "sample_session = \<lparr>session_id = 1, main_bot_game_id = ''g1'', chat_id = 5,
     initiator_id = ''100'', opponent_id = None, helper_bot_id = Some ''42'',
     row_status = ''in_progress'', game_state_json = sample_state, timeoutId = None\<rparr>"

definition sample_world :: world where
  "sample_world = \<lparr>activeHelperGames = [1 \<mapsto> sample_session], rps_sessions = [sample_session],
     timers = Map.empty, next_timer = 0, console = [], transport = [], sql = []\<rparr>"

definition sample_env :: "bool \<Rightarrow> env" where
  "sample_env ok = \<lparr>write_ok = ok, answer_ok = True, edit_ok = True, edit2_ok = True,
     p1_dm_ok = True, p2_dm_ok = True, rnd = 0\<rparr>"

definition sample_callback :: "string \<Rightarrow> string \<Rightarrow> callback_query" where
  "sample_callback d u = \<lparr>cq_id = ''q'', cq_data = d,
     cq_from = \<lparr>uid = u, username = JUndefined, first_name = JStr ''bob''\<rparr>,
     cq_message_id = 9\<rparr>"

text \<open>
  The sample session after user 200 accepted the offer as opponent, and after the
  initiator then locked in rock; and a world whose table holds the sample row still
  waiting to be picked up.
\<close>

definition sample_pvp_world :: world where
  "sample_pvp_world =
     on_callback_query (sample_env True) (sample_callback ''cf_helper_accept_pvp:1'' ''200'') sample_world"

definition sample_one_choice_world :: world where
  "sample_one_choice_world =
     on_callback_query (sample_env True) (sample_callback ''rps_helper_pvp_submit:1:rock'' ''100'')
       sample_pvp_world"

definition sample_pending_world :: world where
  "sample_pending_world = \<lparr>activeHelperGames = Map.empty,
     rps_sessions = [sample_session\<lparr>row_status := ''pending_pickup'', helper_bot_id := None\<rparr>],
     timers = Map.empty, next_timer = 0, console = [], transport = [], sql = []\<rparr>"

text \<open>
  The sample session after its initiator chose to play the bot; and the session record
  the table holds in \<open>sample_pvp_world\<close>.
\<close>

definition sample_pvb_world :: world where
  "sample_pvb_world =
     on_callback_query (sample_env True) (sample_callback ''cf_helper_accept_bot:1'' ''100'') sample_world"

definition sample_pvp_session :: session where
  "sample_pvp_session = \<lparr>session_id = 1, main_bot_game_id = ''g1'', chat_id = 5,
     initiator_id = ''100'', opponent_id = Some ''200'', helper_bot_id = Some ''42'',
     row_status = ''in_progress'',
     game_state_json = \<lparr>status = JStr ''pvp_awaiting_choices'', initiatorName = JStr ''alice'',
       opponentName = JStr ''bob'', helperMessageId = Some 7, p1_choice = JNull,
       p2_choice = JNull, bot_choice = JUndefined\<rparr>,
     timeoutId = Some 0\<rparr>"

text \<open>
  A session is settled when it is gone from the table or both of its choice fields are
  set; an event is a choice submission for session \<open>k\<close> when its data decodes to the
  action \<open>rps_helper_pvp_submit\<close> and the id \<open>k\<close>.
\<close>

definition settled :: "int \<Rightarrow> world \<Rightarrow> bool" where
  "settled k w \<longleftrightarrow>
     (case activeHelperGames w k of
        None \<Rightarrow> True
      | Some s \<Rightarrow> truthy (p1_choice (game_state_json s)) \<and> truthy (p2_choice (game_state_json s)))"

definition is_submit_for :: "int \<Rightarrow> env \<times> callback_query \<Rightarrow> bool" where
  "is_submit_for k ev \<longleftrightarrow>
     fst (decode_data (cq_data (snd ev))) = ''rps_helper_pvp_submit''
     \<and> fst (snd (decode_data (cq_data (snd ev)))) = Some k"

text \<open>
  A session, and a world, with every \<open>GameState.status\<close> erased, in the table and in the
  rows: two worlds with the same image under \<open>blank_status\<close> differ in nothing but the
  sub-states their sessions are in. And the sample environment with the first awaited
  \<open>editMessageText\<close> rejected, and the sample world with another status in the session
  of its table.
\<close>

definition unset_status :: "session \<Rightarrow> session" where
  "unset_status s = s\<lparr>game_state_json := (game_state_json s)\<lparr>status := JUndefined\<rparr>\<rparr>"

definition blank_status :: "world \<Rightarrow> world" where
  "blank_status w =
     w\<lparr>activeHelperGames := (\<lambda>k. map_option unset_status (activeHelperGames w k)),
       rps_sessions := map unset_status (rps_sessions w)\<rparr>"

definition sample_env_no_edit :: env where
  "sample_env_no_edit = (sample_env True)\<lparr>edit_ok := False\<rparr>"

definition sample_stale_world :: world where
  "sample_stale_world =
     sample_world\<lparr>activeHelperGames :=
       [1 \<mapsto> sample_session\<lparr>game_state_json := sample_state\<lparr>status := JStr ''completed_p1_win''\<rparr>\<rparr>]\<rparr>"

section \<open>The outcome resolver: verdicts\<close>

lemma lower_rock: "toLowerCase ''rock'' = ''rock''"
  by (simp add: lower_char_def)

lemma lower_paper: "toLowerCase ''paper'' = ''paper''"
  by (simp add: lower_char_def)

lemma lower_scissors: "toLowerCase ''scissors'' = ''scissors''"
  by (simp add: lower_char_def)

lemma is_choice_cases: "is_choice a \<longleftrightarrow> a = ''rock'' \<or> a = ''paper'' \<or> a = ''scissors''"
  by (auto simp: is_choice_def RPS_CHOICES_values_def ROCK_def PAPER_def SCISSORS_def)

lemma lower_choice: "is_choice a \<Longrightarrow> toLowerCase a = a"
proof -
  assume "is_choice a"
  then consider "a = ''rock''" | "a = ''paper''" | "a = ''scissors''"
    by (auto simp: is_choice_cases)
  then show ?thesis
    by cases (simp_all only: lower_rock lower_paper lower_scissors)
qed

lemma rules_beats:
  "is_choice a \<Longrightarrow>
     (case RPS_RULES a of None \<Rightarrow> False | Some r \<Rightarrow> beats r = b) \<longleftrightarrow> spec_beats a b"
  by (auto simp: is_choice_cases RPS_RULES_def spec_beats_def ROCK_def PAPER_def SCISSORS_def)

lemma result_on_choices:
  assumes "is_choice a" and "is_choice b"
  shows "result (determineRPSOutcome (JStr a) (JStr b) n1 n2) =
           (if a = b then ''draw'' else if spec_beats a b then ''win_player1'' else ''win_player2'')"
  using assms
  by (simp add: determineRPSOutcome_def Let_def lower_choice rules_beats is_choice_def[symmetric])

lemma win_description_defined:
  "is_choice w \<Longrightarrow> is_choice l \<Longrightarrow> win_description name w l \<noteq> None"
  by (auto simp: win_description_def is_choice_cases RPS_RULES_def RPS_EMOJIS_def ROCK_def
        PAPER_def SCISSORS_def)

lemma spec_beats_irrefl: "\<not> spec_beats a a"
  by (auto simp: spec_beats_def)

lemma spec_beats_swap:
  "is_choice a \<Longrightarrow> is_choice b \<Longrightarrow> spec_beats a b \<longleftrightarrow> b \<noteq> a \<and> \<not> spec_beats b a"
  by (auto simp: is_choice_cases spec_beats_def)

lemma result_names:
  "result (determineRPSOutcome x y n1 n2) = result (determineRPSOutcome x y m1 m2)"
  by (simp add: determineRPSOutcome_def Let_def)

lemma result_error_iff:
  "result (determineRPSOutcome x y n1 n2) = ''error'' \<longleftrightarrow>
     \<not> is_choice (toLowerCase (js_String x)) \<or> \<not> is_choice (toLowerCase (js_String y))"
  by (simp add: determineRPSOutcome_def Let_def is_choice_def)

text \<open>
  C1. For two choices of the set rock, paper, scissors the resolver's result is \<open>draw\<close>
  exactly when they are equal, \<open>win_player1\<close> exactly when the first beats the second in
  the relation of the specification, and \<open>win_player2\<close> otherwise; (rock, scissors) is a
  win of the first player, (paper, paper) a draw, (scissors, rock) a win of the second.
\<close>

theorem determineRPSOutcome_verdict:
  assumes "is_choice a" and "is_choice b"
  shows "(result (determineRPSOutcome (JStr a) (JStr b) n1 n2) = ''draw'' \<longleftrightarrow> a = b)
       \<and> (result (determineRPSOutcome (JStr a) (JStr b) n1 n2) = ''win_player1'' \<longleftrightarrow> spec_beats a b)
       \<and> (result (determineRPSOutcome (JStr a) (JStr b) n1 n2) = ''win_player2''
            \<longleftrightarrow> a \<noteq> b \<and> \<not> spec_beats a b)
       \<and> result (determineRPSOutcome (JStr ''rock'') (JStr ''scissors'') n1 n2) = ''win_player1''
       \<and> result (determineRPSOutcome (JStr ''paper'') (JStr ''paper'') n1 n2) = ''draw''
       \<and> result (determineRPSOutcome (JStr ''scissors'') (JStr ''rock'') n1 n2) = ''win_player2''"
proof -
  have r: "is_choice ''rock''" and p: "is_choice ''paper''" and s: "is_choice ''scissors''"
    by (simp_all add: is_choice_cases)
  show ?thesis
    using assms
    by (simp add: result_on_choices r p s spec_beats_irrefl) (simp add: spec_beats_def)
qed

theorem determineRPSOutcome_verdict_witness:
  "is_choice ''rock'' \<and> is_choice ''scissors''
   \<and> result (determineRPSOutcome (JStr ''rock'') (JStr ''scissors'') JUndefined JUndefined)
       = ''win_player1''
   \<and> spec_beats ''rock'' ''scissors''"
proof -
  have r: "is_choice ''rock''" and s: "is_choice ''scissors''"
    by (simp_all add: is_choice_cases)
  have b: "spec_beats ''rock'' ''scissors''"
    by (simp add: spec_beats_def)
  show ?thesis
    using determineRPSOutcome_verdict [OF r s, of JUndefined JUndefined] r s b by simp
qed

text \<open>
  C10. Swapping the two choices swaps the winner: for choices \<open>a\<close> and \<open>b\<close> of the set,
  the result for \<open>(a, b)\<close> is \<open>win_player1\<close> exactly when the result for \<open>(b, a)\<close> is
  \<open>win_player2\<close>, and a draw one way is a draw the other way. For any inputs at all the
  result field is the same whatever the two display names are.
\<close>

theorem determineRPSOutcome_swap:
  assumes "is_choice a" and "is_choice b"
  shows "(result (determineRPSOutcome (JStr a) (JStr b) n1 n2) = ''win_player1''
            \<longleftrightarrow> result (determineRPSOutcome (JStr b) (JStr a) m1 m2) = ''win_player2'')
       \<and> (result (determineRPSOutcome (JStr a) (JStr b) n1 n2) = ''draw''
            \<longleftrightarrow> result (determineRPSOutcome (JStr b) (JStr a) m1 m2) = ''draw'')
       \<and> result (determineRPSOutcome x y n1 n2) = result (determineRPSOutcome x y m1 m2)"
proof -
  have "result (determineRPSOutcome (JStr a) (JStr b) n1 n2) = ''win_player1'' \<longleftrightarrow> spec_beats a b"
    using assms by (simp add: result_on_choices spec_beats_irrefl)
  moreover have "result (determineRPSOutcome (JStr b) (JStr a) m1 m2) = ''win_player2''
                   \<longleftrightarrow> b \<noteq> a \<and> \<not> spec_beats b a"
    using assms by (simp add: result_on_choices)
  moreover have "result (determineRPSOutcome (JStr a) (JStr b) n1 n2) = ''draw'' \<longleftrightarrow> a = b"
    using assms by (simp add: result_on_choices)
  moreover have "result (determineRPSOutcome (JStr b) (JStr a) m1 m2) = ''draw'' \<longleftrightarrow> b = a"
    using assms by (simp add: result_on_choices)
  ultimately show ?thesis
    using spec_beats_swap [OF assms] result_names [of x y n1 n2 m1 m2] by auto
qed

theorem determineRPSOutcome_swap_witness:
  "is_choice ''paper'' \<and> is_choice ''rock''
   \<and> result (determineRPSOutcome (JStr ''paper'') (JStr ''rock'') (JStr ''ann'') (JStr ''ben''))
       = ''win_player1''
   \<and> result (determineRPSOutcome (JStr ''rock'') (JStr ''paper'') JUndefined JNull) = ''win_player2''"
proof -
  have p: "is_choice ''paper''" and r: "is_choice ''rock''"
    by (simp_all add: is_choice_cases)
  have "result (determineRPSOutcome (JStr ''paper'') (JStr ''rock'') (JStr ''ann'') (JStr ''ben''))
          = ''win_player1''"
    using r p by (simp add: result_on_choices spec_beats_def)
  then show ?thesis
    using determineRPSOutcome_swap [OF p r, of "JStr ''ann''" "JStr ''ben''" JUndefined JNull] p r
    by blast
qed

section \<open>The finalizer: write, then evict\<close>

lemma final_writes_append: "final_writes (a @ b) = final_writes a @ final_writes b"
  by (induction a rule: final_writes.induct) simp_all

lemma sql_bot_call: "sql (bot_call c w) = sql w"
  by (simp add: bot_call_def)

lemma sql_clearTimeout: "sql (clearTimeout h w) = sql w"
  by (simp add: clearTimeout_def)

lemma sql_finalize:
  "sql (finalizeAndRecordOutcome ok sid st gs w) = sql w @ [SqlFinalUpdate sid st]"
  by (simp add: finalizeAndRecordOutcome_def Let_def)

text \<open>
  C2, as the code has it. The finalizer sends its one write of the terminal status. When
  the write succeeds the persisted rows of the session take the status and the snapshot
  and the session is removed from the in-memory table. When the write fails the table
  is left as it was and the failure is logged: the removal is not reached.
\<close>

theorem finalize_evicts_when_written:
  "activeHelperGames (finalizeAndRecordOutcome ok sessionId finalStatus snapshot w) =
     (if ok then (activeHelperGames w)(sessionId := None) else activeHelperGames w)
   \<and> rps_sessions (finalizeAndRecordOutcome ok sessionId finalStatus snapshot w) =
     (if ok then final_update sessionId finalStatus snapshot (rps_sessions w) else rps_sessions w)
   \<and> sql (finalizeAndRecordOutcome ok sessionId finalStatus snapshot w) =
     sql w @ [SqlFinalUpdate sessionId finalStatus]
   \<and> console (finalizeAndRecordOutcome ok sessionId finalStatus snapshot w) =
     console w @ LogFinalizing sessionId finalStatus
       # (if ok then [] else [LogCriticalWriteFailed sessionId])"
  by (simp add: finalizeAndRecordOutcome_def Let_def)

text \<open>
  C2 as stated fails: after a finalize whose write failed, the sample session is still
  in the in-memory table.
\<close>

theorem finalize_failed_write_keeps_session:
  "activeHelperGames sample_world 1 = Some sample_session
   \<and> activeHelperGames
       (finalizeAndRecordOutcome False 1 ''completed_push'' sample_state sample_world) 1
     = Some sample_session"
  by (simp add: finalizeAndRecordOutcome_def Let_def sample_world_def)

section \<open>Values outside the choice set\<close>

text \<open>
  C9, as the code has it. The resolver compares the lower-cased string forms of its two
  inputs: its result is \<open>error\<close>, and not one of the three verdicts, exactly when the
  lower-cased string form of at least one input is outside the choice set.
\<close>

theorem resolver_error_iff_outside:
  "(result (determineRPSOutcome x y n1 n2) = ''error'' \<longleftrightarrow>
      \<not> is_choice (toLowerCase (js_String x)) \<or> \<not> is_choice (toLowerCase (js_String y)))
   \<and> (is_choice (toLowerCase (js_String x)) \<and> is_choice (toLowerCase (js_String y)) \<longrightarrow>
        result (determineRPSOutcome x y n1 n2) \<in> {''draw'', ''win_player1'', ''win_player2''})"
  by (simp add: determineRPSOutcome_def Let_def is_choice_def)

theorem resolver_error_iff_outside_witness:
  "\<not> is_choice (toLowerCase ''lizard'')
   \<and> result (determineRPSOutcome (JStr ''lizard'') (JStr ''rock'') JUndefined JUndefined) = ''error''
   \<and> is_choice (toLowerCase ''Paper'') \<and> is_choice (toLowerCase ''rock'')
   \<and> result (determineRPSOutcome (JStr ''Paper'') (JStr ''rock'') JUndefined JUndefined)
       \<in> {''draw'', ''win_player1'', ''win_player2''}"
proof -
  have l: "\<not> is_choice (toLowerCase ''lizard'')"
    by code_simp
  have p: "is_choice (toLowerCase ''Paper'')" and r: "is_choice (toLowerCase ''rock'')"
    by code_simp+
  show ?thesis
    using l p r
      resolver_error_iff_outside [of "JStr ''lizard''" "JStr ''rock''" JUndefined JUndefined]
      resolver_error_iff_outside [of "JStr ''Paper''" "JStr ''rock''" JUndefined JUndefined]
    by simp
qed

text \<open>
  C9 as stated fails: \<open>ROCK\<close> is not a member of the choice set, and the resolver returns
  a verdict for it, not the error result.
\<close>

theorem uppercase_choice_gets_verdict:
  "\<not> is_choice ''ROCK''
   \<and> result (determineRPSOutcome (JStr ''ROCK'') (JStr ''scissors'') JUndefined JUndefined)
       = ''win_player1''"
  by code_simp

text \<open>The same for \<open>ROC\<close> followed by the Kelvin sign, which lower-cases to \<open>rock\<close>.\<close>

lemma kelvin_sign_gets_verdict:
  "result (determineRPSOutcome (JStr (''ROC'' @ [CHR 0xE2, CHR 0x84, CHR 0xAA])) (JStr ''scissors'')
     JUndefined JUndefined) = ''win_player1''"
  by code_simp

text \<open>
  The callers. The player-versus-bot ternary has no case for the error result and sends
  everything that is neither \<open>win_player1\<close> nor \<open>draw\<close> to \<open>completed_bot_win\<close>; the
  player-versus-player ternary sends it to \<open>completed_push\<close>.
\<close>

lemma error_status_of_callers:
  "pvb_finalStatus ''error'' = ''completed_bot_win'' \<and> pvp_finalStatus ''error'' = ''completed_push''"
  by (simp add: pvb_finalStatus_def pvp_finalStatus_def)

lemma pvb_error_is_bot_win:
  "final_writes (sql (on_callback_query (sample_env True)
      (sample_callback ''rps_helper_pvb_choice:1:lizard'' ''100'') sample_world))
   = [(1, ''completed_bot_win'')]"
  by code_simp

section \<open>Timeouts\<close>

lemma games_bot_call: "activeHelperGames (bot_call c w) = activeHelperGames w"
  by (simp add: bot_call_def)

lemma rows_bot_call: "rps_sessions (bot_call c w) = rps_sessions w"
  by (simp add: bot_call_def)

lemma games_finalize:
  "activeHelperGames (finalizeAndRecordOutcome ok sid st gs w) =
     (if ok then (activeHelperGames w)(sid := None) else activeHelperGames w)"
  by (simp add: finalizeAndRecordOutcome_def Let_def)

lemma rows_finalize:
  "rps_sessions (finalizeAndRecordOutcome ok sid st gs w) =
     (if ok then final_update sid st gs (rps_sessions w) else rps_sessions w)"
  by (simp add: finalizeAndRecordOutcome_def Let_def)

text \<open>What the finalizer's write does to the rows of the session.\<close>

lemma final_update_status:
  assumes "r \<in> set (final_update sid st gs rows)" and "session_id r = sid"
  shows "row_status r = st"
proof -
  from assms(1) obtain r0 where
    r: "r = (if session_id r0 = sid then r0\<lparr>row_status := st, game_state_json := gs\<rparr> else r0)"
    unfolding final_update_def set_map by (rule imageE)
  show ?thesis
  proof (cases "session_id r0 = sid")
    case True
    with r show ?thesis by simp
  next
    case False
    with r assms(2) show ?thesis by simp
  qed
qed

lemma awaited_ok: "ok \<Longrightarrow> awaited ok c rest w = rest (bot_call c w)"
  by (simp add: awaited_def)

lemma awaited_rejected: "\<not> ok \<Longrightarrow> awaited ok c rest w = w"
  by (simp add: awaited_def)

lemma handleGameTimeout_absent:
  "activeHelperGames w sid = None \<Longrightarrow> handleGameTimeout env sid tag w = w"
  by (simp add: handleGameTimeout_def)

lemma handleGameTimeout_offer:
  assumes "activeHelperGames w sid = Some s" and "edit_ok env"
  shows "handleGameTimeout env sid ''offer'' w =
           finalizeAndRecordOutcome (write_ok env) sid ''completed_timeout'' (game_state_json s)
             (bot_call (EditMessageText TxtOfferExpired (ChatOf (chat_id s))
                          (helperMessageId (game_state_json s)) False) w)"
  using assms by (simp add: handleGameTimeout_def Let_def awaited_ok)

lemma handleGameTimeout_pvb:
  assumes "activeHelperGames w sid = Some s" and "edit_ok env"
  shows "handleGameTimeout env sid ''pvb_player_turn'' w =
           finalizeAndRecordOutcome (write_ok env) sid ''completed_bot_win'' (game_state_json s)
             (bot_call (EditMessageText TxtPlayerTimedOut (ChatOf (chat_id s))
                          (helperMessageId (game_state_json s)) False) w)"
  using assms by (simp add: handleGameTimeout_def Let_def awaited_ok)

lemma handleGameTimeout_pvp:
  assumes "activeHelperGames w sid = Some s" and "edit_ok env"
  shows "handleGameTimeout env sid ''pvp_choices'' w =
           finalizeAndRecordOutcome (write_ok env) sid ''completed_push'' (game_state_json s)
             (bot_call (EditMessageText TxtDuelTimedOut (ChatOf (chat_id s))
                          (helperMessageId (game_state_json s)) False) w)"
  using assms by (simp add: handleGameTimeout_def Let_def awaited_ok)

text \<open>An expiry whose awaited edit is rejected ends before the finalizer.\<close>

lemma handleGameTimeout_edit_rejected:
  "\<not> edit_ok env \<Longrightarrow> handleGameTimeout env sid tag w = w"
  by (simp add: handleGameTimeout_def Let_def awaited_rejected split: option.split)

lemmas timeout_sql = sql_finalize sql_bot_call final_writes_append
lemmas timeout_post = games_finalize games_bot_call rows_finalize rows_bot_call

text \<open>Erasing the sub-states commutes with the steps the handlers are made of.\<close>

lemma unset_status_idem: "unset_status (unset_status s) = unset_status s"
  by (simp add: unset_status_def)

lemma blank_bot_call: "blank_status (bot_call c w) = bot_call c (blank_status w)"
  by (simp add: blank_status_def bot_call_def)

lemma blank_clearTimeout: "blank_status (clearTimeout h w) = clearTimeout h (blank_status w)"
  by (simp add: blank_status_def clearTimeout_def)

lemma blank_store:
  "blank_status (store_session k s w) = store_session k (unset_status s) (blank_status w)"
  by (simp add: blank_status_def store_session_def fun_eq_iff)

lemma final_update_unset:
  "map unset_status (final_update k st gs rows) =
     final_update k st (gs\<lparr>status := JUndefined\<rparr>) (map unset_status rows)"
  by (induction rows) (simp_all add: final_update_def unset_status_def)

lemma blank_finalize:
  "blank_status (finalizeAndRecordOutcome ok k st gs w) =
     finalizeAndRecordOutcome ok k st (gs\<lparr>status := JUndefined\<rparr>) (blank_status w)"
  by (simp add: blank_status_def finalizeAndRecordOutcome_def Let_def final_update_unset fun_eq_iff)

lemma blank_awaited:
  assumes "\<And>v. blank_status (rest v) = rest' (blank_status v)"
  shows "blank_status (awaited ok c rest w) = awaited ok c rest' (blank_status w)"
  by (simp add: awaited_def assms blank_bot_call)

lemma blank_games:
  "activeHelperGames (blank_status w) k = map_option unset_status (activeHelperGames w k)"
  by (simp add: blank_status_def)

lemma blank_idem: "blank_status (blank_status w) = blank_status w"
  by (simp add: blank_status_def unset_status_idem fun_eq_iff option.map_comp comp_def)

lemma unset_fields:
  "chat_id (unset_status s) = chat_id s"
  "session_id (unset_status s) = session_id s"
  "initiator_id (unset_status s) = initiator_id s"
  "opponent_id (unset_status s) = opponent_id s"
  "timeoutId (unset_status s) = timeoutId s"
  "game_state_json (unset_status s) = (game_state_json s)\<lparr>status := JUndefined\<rparr>"
  by (simp_all add: unset_status_def)

lemma handleGameTimeout_blank:
  "blank_status (handleGameTimeout env sid tag w)
     = blank_status (handleGameTimeout env sid tag (blank_status w))"
proof (cases "activeHelperGames w sid")
  case None
  then show ?thesis
    by (simp add: handleGameTimeout_def blank_games blank_idem)
next
  case (Some s)
  have fin: "blank_status (awaited ok c (finalizeAndRecordOutcome b sid st gs) w)
       = blank_status (awaited ok c (finalizeAndRecordOutcome b sid st (gs\<lparr>status := JUndefined\<rparr>))
           (blank_status w))" for ok c b st gs
    by (simp add: awaited_def blank_finalize blank_bot_call blank_idem)
  show ?thesis
    using Some
    by (simp add: handleGameTimeout_def Let_def blank_games unset_fields fin blank_idem)
qed


text \<open>
  C3, as the code has it. When a timeout task runs it re-checks one thing, that the
  session is still in the in-memory table. If the session was evicted the expiry
  changes nothing. If it is there, then whatever sub-state it is in by now, the task
  edits the message and, when that edit resolves, finalizes the session with the status
  of the tag the timer was armed with: \<open>completed_timeout\<close> for \<open>offer\<close>,
  \<open>completed_bot_win\<close> for \<open>pvb_player_turn\<close>, \<open>completed_push\<close> for \<open>pvp_choices\<close>.
  \<open>GameState.status\<close> is not read: worlds that differ in the sub-states only are taken to
  worlds that differ in the sub-states only.
\<close>

theorem handleGameTimeout_checks_presence_only:
  "(activeHelperGames w sid = None \<longrightarrow> handleGameTimeout env sid tag w = w)
   \<and> (activeHelperGames w sid = Some s \<and> edit_ok env \<longrightarrow>
        handleGameTimeout env sid ''offer'' w =
          finalizeAndRecordOutcome (write_ok env) sid ''completed_timeout'' (game_state_json s)
            (bot_call (EditMessageText TxtOfferExpired (ChatOf (chat_id s))
                         (helperMessageId (game_state_json s)) False) w)
      \<and> handleGameTimeout env sid ''pvb_player_turn'' w =
          finalizeAndRecordOutcome (write_ok env) sid ''completed_bot_win'' (game_state_json s)
            (bot_call (EditMessageText TxtPlayerTimedOut (ChatOf (chat_id s))
                         (helperMessageId (game_state_json s)) False) w)
      \<and> handleGameTimeout env sid ''pvp_choices'' w =
          finalizeAndRecordOutcome (write_ok env) sid ''completed_push'' (game_state_json s)
            (bot_call (EditMessageText TxtDuelTimedOut (ChatOf (chat_id s))
                         (helperMessageId (game_state_json s)) False) w)
      \<and> final_writes (sql (handleGameTimeout env sid ''offer'' w))
          = final_writes (sql w) @ [(sid, ''completed_timeout'')]
      \<and> final_writes (sql (handleGameTimeout env sid ''pvb_player_turn'' w))
          = final_writes (sql w) @ [(sid, ''completed_bot_win'')]
      \<and> final_writes (sql (handleGameTimeout env sid ''pvp_choices'' w))
          = final_writes (sql w) @ [(sid, ''completed_push'')])
   \<and> (blank_status w = blank_status w' \<longrightarrow>
        blank_status (handleGameTimeout env sid tag w)
          = blank_status (handleGameTimeout env sid tag w'))"
proof (intro conjI impI)
  assume "activeHelperGames w sid = None"
  then show "handleGameTimeout env sid tag w = w"
    by (rule handleGameTimeout_absent)
next
  assume "blank_status w = blank_status w'"
  then show "blank_status (handleGameTimeout env sid tag w)
               = blank_status (handleGameTimeout env sid tag w')"
    using handleGameTimeout_blank [of env sid tag w] handleGameTimeout_blank [of env sid tag w']
    by simp
next
  assume a: "activeHelperGames w sid = Some s \<and> edit_ok env"
  then have s: "activeHelperGames w sid = Some s" and e: "edit_ok env"
    by simp_all
  show "handleGameTimeout env sid ''offer'' w =
          finalizeAndRecordOutcome (write_ok env) sid ''completed_timeout'' (game_state_json s)
            (bot_call (EditMessageText TxtOfferExpired (ChatOf (chat_id s))
                         (helperMessageId (game_state_json s)) False) w)"
    by (rule handleGameTimeout_offer [OF s e])
  show "handleGameTimeout env sid ''pvb_player_turn'' w =
          finalizeAndRecordOutcome (write_ok env) sid ''completed_bot_win'' (game_state_json s)
            (bot_call (EditMessageText TxtPlayerTimedOut (ChatOf (chat_id s))
                         (helperMessageId (game_state_json s)) False) w)"
    by (rule handleGameTimeout_pvb [OF s e])
  show "handleGameTimeout env sid ''pvp_choices'' w =
          finalizeAndRecordOutcome (write_ok env) sid ''completed_push'' (game_state_json s)
            (bot_call (EditMessageText TxtDuelTimedOut (ChatOf (chat_id s))
                         (helperMessageId (game_state_json s)) False) w)"
    by (rule handleGameTimeout_pvp [OF s e])
  show "final_writes (sql (handleGameTimeout env sid ''offer'' w))
          = final_writes (sql w) @ [(sid, ''completed_timeout'')]"
    by (simp add: handleGameTimeout_offer [OF s e] timeout_sql)
  show "final_writes (sql (handleGameTimeout env sid ''pvb_player_turn'' w))
          = final_writes (sql w) @ [(sid, ''completed_bot_win'')]"
    by (simp add: handleGameTimeout_pvb [OF s e] timeout_sql)
  show "final_writes (sql (handleGameTimeout env sid ''pvp_choices'' w))
          = final_writes (sql w) @ [(sid, ''completed_push'')]"
    by (simp add: handleGameTimeout_pvp [OF s e] timeout_sql)
qed

theorem handleGameTimeout_checks_presence_only_witness:
  "activeHelperGames sample_pvp_world 1 = Some sample_pvp_session \<and> edit_ok (sample_env True)
   \<and> final_writes (sql (handleGameTimeout (sample_env True) 1 ''pvp_choices'' sample_pvp_world))
       = [(1, ''completed_push'')]
   \<and> activeHelperGames sample_pvp_world 2 = None
   \<and> handleGameTimeout (sample_env True) 2 ''pvp_choices'' sample_pvp_world = sample_pvp_world
   \<and> blank_status sample_pvp_world = blank_status (blank_status sample_pvp_world)
   \<and> blank_status (handleGameTimeout (sample_env True) 1 ''pvp_choices'' sample_pvp_world)
       = blank_status (handleGameTimeout (sample_env True) 1 ''pvp_choices''
           (blank_status sample_pvp_world))"
proof -
  have p: "activeHelperGames sample_pvp_world 1 = Some sample_pvp_session"
    by code_simp
  have a: "activeHelperGames sample_pvp_world 2 = None"
    by code_simp
  have ok: "edit_ok (sample_env True)"
    by (simp add: sample_env_def)
  have f: "final_writes (sql sample_pvp_world) = []"
    by code_simp
  have b: "blank_status sample_pvp_world = blank_status (blank_status sample_pvp_world)"
    by (simp add: blank_idem)
  note t1 = handleGameTimeout_checks_presence_only
              [of sample_pvp_world 1 "sample_env True" "''pvp_choices''" sample_pvp_session
                  "blank_status sample_pvp_world"]
  note t2 = handleGameTimeout_checks_presence_only
              [of sample_pvp_world 2 "sample_env True" "''pvp_choices''" sample_pvp_session
                  sample_pvp_world]
  have "final_writes (sql (handleGameTimeout (sample_env True) 1 ''pvp_choices'' sample_pvp_world))
          = final_writes (sql sample_pvp_world) @ [(1, ''completed_push'')]"
    by (rule t1 [THEN conjunct2, THEN conjunct1, THEN mp, OF conjI [OF p ok],
                 THEN conjunct2, THEN conjunct2, THEN conjunct2, THEN conjunct2, THEN conjunct2])
  with f have w1: "final_writes (sql (handleGameTimeout (sample_env True) 1 ''pvp_choices''
                     sample_pvp_world)) = [(1, ''completed_push'')]"
    by simp
  have w2: "handleGameTimeout (sample_env True) 2 ''pvp_choices'' sample_pvp_world = sample_pvp_world"
    by (rule t2 [THEN conjunct1, THEN mp, OF a])
  have w3: "blank_status (handleGameTimeout (sample_env True) 1 ''pvp_choices'' sample_pvp_world)
       = blank_status (handleGameTimeout (sample_env True) 1 ''pvp_choices''
           (blank_status sample_pvp_world))"
    by (rule t1 [THEN conjunct2, THEN conjunct2, THEN mp, OF b])
  show ?thesis
    by (intro conjI p ok w1 a w2 b w3)
qed

text \<open>
  C3 as stated fails: the sample session has advanced to \<open>pvp_awaiting_choices\<close>, and a
  timeout task armed for the player-versus-bot turn still finalizes it, as a win of the
  bot.
\<close>

theorem stale_timeout_still_finalizes:
  "map_option (status \<circ> game_state_json) (activeHelperGames sample_pvp_world 1)
     = Some (JStr ''pvp_awaiting_choices'')
   \<and> final_writes (sql sample_pvp_world) = []
   \<and> final_writes (sql (handleGameTimeout (sample_env True) 1 ''pvb_player_turn'' sample_pvp_world))
     = [(1, ''completed_bot_win'')]
   \<and> activeHelperGames (handleGameTimeout (sample_env True) 1 ''pvb_player_turn'' sample_pvp_world) 1
     = None"
  by code_simp

text \<open>
  C6 on the code. The sample session waits for its initiator's choice against the bot,
  its timer pending. The timer expires and the awaited edit of the message is rejected
  (the message was deleted, say): the handler ends at that \<open>await\<close>. No finalizing write
  is made, the rows are as before, the session stays in the table in its waiting
  sub-state, and no timer is pending for it any more.
\<close>

theorem timeout_with_rejected_edit_finalizes_nothing:
  "timers sample_pvb_world 0 = Some (1, ''pvb_player_turn'')
   \<and> map_option (status \<circ> game_state_json) (activeHelperGames sample_pvb_world 1)
       = Some (JStr ''pvb_awaiting_player_choice'')
   \<and> final_writes (sql (timer_expires sample_env_no_edit 0 sample_pvb_world)) = []
   \<and> rps_sessions (timer_expires sample_env_no_edit 0 sample_pvb_world) = rps_sessions sample_pvb_world
   \<and> map row_status (rps_sessions sample_pvb_world) = [''in_progress'']
   \<and> activeHelperGames (timer_expires sample_env_no_edit 0 sample_pvb_world) 1
       = activeHelperGames sample_pvb_world 1
   \<and> timers (timer_expires sample_env_no_edit 0 sample_pvb_world) 0 = None
   \<and> timers (timer_expires sample_env_no_edit 0 sample_pvb_world) 1 = None"
  by code_simp

text \<open>
  When the edit resolves, the timer armed on entering play finalizes the session with the
  status of its kind, whatever the two choice fields hold.
\<close>

lemma runRPSPvB_armed:
  assumes "edit_ok env0"
  shows "timers (runRPSPvB env0 s w) (next_timer w) = Some (session_id s, ''pvb_player_turn'')
       \<and> activeHelperGames (runRPSPvB env0 s w) (session_id s) \<noteq> None
       \<and> sql (runRPSPvB env0 s w) = sql w"
  using assms
  by (simp add: runRPSPvB_def Let_def awaited_ok setTimeout_def store_session_def bot_call_def)

lemma runRPSPvP_armed:
  assumes "edit_ok env0"
  shows "timers (runRPSPvP env0 s w) (next_timer w) = Some (session_id s, ''pvp_choices'')
       \<and> activeHelperGames (runRPSPvP env0 s w) (session_id s) \<noteq> None
       \<and> sql (runRPSPvP env0 s w) = sql w"
  using assms
  by (simp add: runRPSPvP_def Let_def awaited_ok setTimeout_def store_session_def bot_call_def
        safeSendMessage_def)

lemma timer_expires_pending:
  assumes "timers w h = Some (sid, tag)" and "activeHelperGames w sid = Some s" and "edit_ok env"
  shows "final_writes (sql (timer_expires env h w)) =
           final_writes (sql w) @
             (if tag = ''offer'' then [(sid, ''completed_timeout'')]
              else if tag = ''pvb_player_turn'' then [(sid, ''completed_bot_win'')]
              else if tag = ''pvp_choices'' then [(sid, ''completed_push'')] else [])"
  using assms
  by (simp add: timer_expires_def handleGameTimeout_def Let_def awaited_ok clearTimeout_def
        timeout_sql)

lemma pvb_timer_expiry:
  assumes "edit_ok env0" and "edit_ok env"
  shows "final_writes (sql (timer_expires env (next_timer w) (runRPSPvB env0 s w)))
           = final_writes (sql w) @ [(session_id s, ''completed_bot_win'')]"
proof -
  from runRPSPvB_armed [OF assms(1), of s w] obtain s' where
    "timers (runRPSPvB env0 s w) (next_timer w) = Some (session_id s, ''pvb_player_turn'')"
    "activeHelperGames (runRPSPvB env0 s w) (session_id s) = Some s'"
    "sql (runRPSPvB env0 s w) = sql w"
    by blast
  then show ?thesis
    using timer_expires_pending [OF _ _ assms(2), of "runRPSPvB env0 s w" "next_timer w"
            "session_id s" "''pvb_player_turn''" s']
    by simp
qed

lemma pvp_timer_expiry:
  assumes "edit_ok env0" and "edit_ok env"
  shows "final_writes (sql (timer_expires env (next_timer w) (runRPSPvP env0 s w)))
           = final_writes (sql w) @ [(session_id s, ''completed_push'')]"
proof -
  from runRPSPvP_armed [OF assms(1), of s w] obtain s' where
    "timers (runRPSPvP env0 s w) (next_timer w) = Some (session_id s, ''pvp_choices'')"
    "activeHelperGames (runRPSPvP env0 s w) (session_id s) = Some s'"
    "sql (runRPSPvP env0 s w) = sql w"
    by blast
  then show ?thesis
    using timer_expires_pending [OF _ _ assms(2), of "runRPSPvP env0 s w" "next_timer w"
            "session_id s" "''pvp_choices''" s']
    by simp
qed

section \<open>Claiming\<close>

lemma log_sql_fields:
  "activeHelperGames (log_sql qs w) = activeHelperGames w"
  "rps_sessions (log_sql qs w) = rps_sessions w"
  "console (log_sql qs w) = console w"
  "timers (log_sql qs w) = timers w"
  "transport (log_sql qs w) = transport w"
  "sql (log_sql qs w) = sql w @ qs"
  by (simp_all add: log_sql_def)

lemma claim_none:
  assumes "filter (claimable g) (rps_sessions w) = []"
  shows "handleNewGameSession B rd ru NoFault g w
           = log_sql [SqlBegin, SqlClaimUpdate B g, SqlRollback] w"
  using assms by (simp add: handleNewGameSession_def claim_update_def)

lemma claimed_fields:
  "session_id (claimed B r) = session_id r"
  "opponent_id (claimed B r) = opponent_id r"
  "row_status (claimed B r) = ''in_progress''"
  "helper_bot_id (claimed B r) = Some B"
  by (simp_all add: claimed_def)

lemma claim_one:
  assumes "filter (claimable g) (rps_sessions w) = [r]"
  shows "handleNewGameSession B rd ru NoFault g w =
           (let s = claimed B r;
                w3 = store_session (session_id r) s
                       ((log_sql [SqlBegin, SqlClaimUpdate B g, SqlCommit] w)
                          \<lparr>rps_sessions := map (\<lambda>x. if claimable g x then claimed B x else x)
                                              (rps_sessions w)\<rparr>)
            in case (if id_truthy (opponent_id r) then rd s w3 else ru s w3) of
                 Some w4 \<Rightarrow> w4
               | None \<Rightarrow> new_session_error g (log_sql [SqlRollback] w3))"
  using assms
  by (simp add: handleNewGameSession_def claim_update_def Let_def claimed_fields cong: option.case_cong)

text \<open>
  C8. With no datastore fault, \<open>handleNewGameSession\<close> sends \<open>BEGIN\<close>, the one
  conditional \<open>UPDATE\<close>, and then: when no row was affected, \<open>ROLLBACK\<close> and nothing
  else (the table, the in-memory map, the logs, the transport and the timers are as
  before); when exactly one row was affected, \<open>COMMIT\<close>, the returned row (now
  \<open>in_progress\<close> and owned by this worker) is stored in the in-memory map under its
  session id, and the run continues with the offer entry when the row's opponent is
  unset, and with the direct-challenge entry otherwise.
\<close>

theorem claim_zero_or_one_row:
  "(filter (claimable g) (rps_sessions w) = [] \<longrightarrow>
      handleNewGameSession B rd ru NoFault g w = log_sql [SqlBegin, SqlClaimUpdate B g, SqlRollback] w
      \<and> activeHelperGames (handleNewGameSession B rd ru NoFault g w) = activeHelperGames w
      \<and> rps_sessions (handleNewGameSession B rd ru NoFault g w) = rps_sessions w
      \<and> console (handleNewGameSession B rd ru NoFault g w) = console w
      \<and> transport (handleNewGameSession B rd ru NoFault g w) = transport w
      \<and> timers (handleNewGameSession B rd ru NoFault g w) = timers w)
   \<and> (filter (claimable g) (rps_sessions w) = [r] \<longrightarrow>
      (let s = claimed B r;
           w3 = store_session (session_id r) s
                  ((log_sql [SqlBegin, SqlClaimUpdate B g, SqlCommit] w)
                     \<lparr>rps_sessions := map (\<lambda>x. if claimable g x then claimed B x else x)
                                         (rps_sessions w)\<rparr>)
       in activeHelperGames w3 (session_id r) = Some s
          \<and> row_status s = ''in_progress'' \<and> helper_bot_id s = Some B
          \<and> sql w3 = sql w @ [SqlBegin, SqlClaimUpdate B g, SqlCommit]
          \<and> handleNewGameSession B rd ru NoFault g w =
              (case (if opponent_id r = None \<or> opponent_id r = Some [] then ru s w3 else rd s w3) of
                 Some w4 \<Rightarrow> w4
               | None \<Rightarrow> new_session_error g (log_sql [SqlRollback] w3))))"
proof (intro conjI impI)
  assume z: "filter (claimable g) (rps_sessions w) = []"
  show "handleNewGameSession B rd ru NoFault g w = log_sql [SqlBegin, SqlClaimUpdate B g, SqlRollback] w"
    by (rule claim_none [OF z])
  show "activeHelperGames (handleNewGameSession B rd ru NoFault g w) = activeHelperGames w"
    "rps_sessions (handleNewGameSession B rd ru NoFault g w) = rps_sessions w"
    "console (handleNewGameSession B rd ru NoFault g w) = console w"
    "transport (handleNewGameSession B rd ru NoFault g w) = transport w"
    "timers (handleNewGameSession B rd ru NoFault g w) = timers w"
    by (simp_all add: claim_none [OF z] log_sql_fields)
next
  assume o: "filter (claimable g) (rps_sessions w) = [r]"
  have t: "id_truthy (opponent_id r) \<longleftrightarrow> \<not> (opponent_id r = None \<or> opponent_id r = Some [])"
    by (cases "opponent_id r") simp_all
  show "let s = claimed B r;
            w3 = store_session (session_id r) s
                  ((log_sql [SqlBegin, SqlClaimUpdate B g, SqlCommit] w)
                     \<lparr>rps_sessions := map (\<lambda>x. if claimable g x then claimed B x else x)
                                         (rps_sessions w)\<rparr>)
       in activeHelperGames w3 (session_id r) = Some s
          \<and> row_status s = ''in_progress'' \<and> helper_bot_id s = Some B
          \<and> sql w3 = sql w @ [SqlBegin, SqlClaimUpdate B g, SqlCommit]
          \<and> handleNewGameSession B rd ru NoFault g w =
              (case (if opponent_id r = None \<or> opponent_id r = Some [] then ru s w3 else rd s w3) of
                 Some w4 \<Rightarrow> w4
               | None \<Rightarrow> new_session_error g (log_sql [SqlRollback] w3))"
    unfolding Let_def
  proof (intro conjI)
    show "handleNewGameSession B rd ru NoFault g w =
      (case if opponent_id r = None \<or> opponent_id r = Some [] 
            then ru (claimed B r) (store_session (session_id r) (claimed B r)
                  ((log_sql [SqlBegin, SqlClaimUpdate B g, SqlCommit] w)
                     \<lparr>rps_sessions := map (\<lambda>x. if claimable g x then claimed B x else x)
                                         (rps_sessions w)\<rparr>)) 
            else rd (claimed B r) (store_session (session_id r) (claimed B r)
                  ((log_sql [SqlBegin, SqlClaimUpdate B g, SqlCommit] w)
                     \<lparr>rps_sessions := map (\<lambda>x. if claimable g x then claimed B x else x)
                                         (rps_sessions w)\<rparr>)) of
                 Some w4 \<Rightarrow> w4
               | None \<Rightarrow> new_session_error g (log_sql [SqlRollback] (store_session (session_id r) (claimed B r)
                  ((log_sql [SqlBegin, SqlClaimUpdate B g, SqlCommit] w)
                     \<lparr>rps_sessions := map (\<lambda>x. if claimable g x then claimed B x else x)
                                         (rps_sessions w)\<rparr>))))"
      by (simp add: claim_one [OF o] Let_def t)
  qed (simp_all add: store_session_def claimed_fields log_sql_def)
qed

theorem claim_zero_or_one_row_witness:
  "filter (claimable ''g1'') (rps_sessions sample_pending_world)
     = [sample_session\<lparr>row_status := ''pending_pickup'', helper_bot_id := None\<rparr>]
   \<and> filter (claimable ''g2'') (rps_sessions sample_pending_world) = []
   \<and> activeHelperGames (handleNewGameSession ''42'' (\<lambda>s w. None) (\<lambda>s w. Some w) NoFault ''g2''
        sample_pending_world) 1 = None
   \<and> activeHelperGames (handleNewGameSession ''42'' (\<lambda>s w. None) (\<lambda>s w. Some w) NoFault ''g1''
        sample_pending_world) 1 = Some sample_session"
proof -
  have one: "filter (claimable ''g1'') (rps_sessions sample_pending_world)
     = [sample_session\<lparr>row_status := ''pending_pickup'', helper_bot_id := None\<rparr>]"
    by (simp add: sample_pending_world_def claimable_def sample_session_def)
  have zero: "filter (claimable ''g2'') (rps_sessions sample_pending_world) = []"
    by (simp add: sample_pending_world_def claimable_def sample_session_def)
  have e: "activeHelperGames sample_pending_world 1 = None"
    by (simp add: sample_pending_world_def)
  have c: "claimed ''42'' (sample_session\<lparr>row_status := ''pending_pickup'', helper_bot_id := None\<rparr>)
             = sample_session"
    by (simp add: claimed_def sample_session_def)
  have o: "opponent_id sample_session = None" and i: "session_id sample_session = 1"
    by (simp_all add: sample_session_def)
  show ?thesis
    using claim_zero_or_one_row [of "''g2''" sample_pending_world "''42''" "\<lambda>s w. None" "\<lambda>s w. Some w"]
      claim_zero_or_one_row [of "''g1''" sample_pending_world "''42''" "\<lambda>s w. None" "\<lambda>s w. Some w"
            "sample_session\<lparr>row_status := ''pending_pickup'', helper_bot_id := None\<rparr>"]
      one zero e
    by (simp add: Let_def c o i store_session_def log_sql_fields)
qed

section \<open>Decoding the callback data\<close>

text \<open>Samples of \<open>parseInt\<close>; the last one is the first integer that is not a double.\<close>

lemma parseInt10_samples:
  "parseInt10 ''1'' = Some 1 \<and> parseInt10 '' -42x'' = Some (- 42) \<and> parseInt10 ''undefined'' = None"
  by code_simp

lemma to_double_rounds: "to_double 9007199254740993 = Some 9007199254740992"
proof -
  have "bit_length 9007199254740993 = 54" "bit_length 9007199254740992 = 54"
    by (simp_all add: bit_length.simps)
  then show ?thesis
    by (simp add: to_double_def Let_def)
qed

section \<open>The callback handler: what an event does to a session\<close>

lemma clear_fields:
  "activeHelperGames (case t of None \<Rightarrow> w | Some h \<Rightarrow> clearTimeout h w) = activeHelperGames w"
  "sql (case t of None \<Rightarrow> w | Some h \<Rightarrow> clearTimeout h w) = sql w"
  "transport (case t of None \<Rightarrow> w | Some h \<Rightarrow> clearTimeout h w) = transport w"
  "console (case t of None \<Rightarrow> w | Some h \<Rightarrow> clearTimeout h w) = console w"
  "rps_sessions (case t of None \<Rightarrow> w | Some h \<Rightarrow> clearTimeout h w) = rps_sessions w"
  by (simp_all add: clearTimeout_def split: option.split)

lemma on_callback_query_found:
  assumes "decode_data (cq_data cq) = (action, Some k, params)"
      and "activeHelperGames w k = Some s"
  shows "on_callback_query env cq w =
           dispatch env cq action params k s
             (case timeoutId s of None \<Rightarrow> w | Some h \<Rightarrow> clearTimeout h w)"
  using assms by (simp add: on_callback_query_def)

lemma on_callback_query_absent:
  assumes "decode_data (cq_data cq) = (action, Some k, params)"
      and "activeHelperGames w k = None"
  shows "on_callback_query env cq w = no_longer_active env cq w"
  using assms by (simp add: on_callback_query_def)

lemma store_fields:
  "activeHelperGames (store_session k s w) = (activeHelperGames w)(k \<mapsto> s)"
  "sql (store_session k s w) = sql w"
  "transport (store_session k s w) = transport w"
  "rps_sessions (store_session k s w) = rps_sessions w"
  by (simp_all add: store_session_def)

lemma transport_bot_call: "transport (bot_call c w) = transport w @ [c]"
  by (simp add: bot_call_def)

text \<open>Erasing the sub-states commutes with the parts of the handler.\<close>

lemma blank_timers:
  "timers (blank_status w) = timers w" "next_timer (blank_status w) = next_timer w"
  by (simp_all add: blank_status_def)

lemma blank_setTimeout:
  "blank_status (snd (setTimeout k tag w)) = snd (setTimeout k tag (blank_status w))"
  by (simp add: setTimeout_def blank_status_def)

lemma fst_setTimeout: "fst (setTimeout k tag w) = next_timer w"
  by (simp add: setTimeout_def)

lemma next_timer_kept:
  "next_timer (bot_call c w) = next_timer w"
  "next_timer (store_session k s w) = next_timer w"
  "next_timer (safeSendMessage ok ch t w) = next_timer w"
  by (simp_all add: bot_call_def store_session_def safeSendMessage_def)

lemma blank_safeSend:
  "blank_status (safeSendMessage ok c t w) = safeSendMessage ok c t (blank_status w)"
  by (simp add: safeSendMessage_def blank_bot_call) (simp add: blank_status_def)

lemma unset_update_status:
  "unset_status (s\<lparr>game_state_json := gs\<lparr>status := x\<rparr>\<rparr>) = unset_status (s\<lparr>game_state_json := gs\<rparr>)"
  by (simp add: unset_status_def)

lemma runRPSPvB_blank:
  "blank_status (runRPSPvB env s w) = blank_status (runRPSPvB env (unset_status s) (blank_status w))"
  by (simp add: runRPSPvB_def Let_def awaited_def blank_store blank_bot_call blank_idem
        split_beta blank_setTimeout fst_setTimeout next_timer_kept blank_timers unset_fields
        unset_status_def)

lemma runRPSPvP_blank:
  "blank_status (runRPSPvP env s w) = blank_status (runRPSPvP env (unset_status s) (blank_status w))"
  by (simp add: runRPSPvP_def Let_def awaited_def blank_store blank_bot_call blank_idem
        split_beta blank_setTimeout fst_setTimeout next_timer_kept blank_timers blank_safeSend
        unset_fields unset_status_def)

lemma choice_status_fields:
  "get_choice key (gs\<lparr>status := x\<rparr>) = get_choice key gs"
  "set_choice key v (gs\<lparr>status := x\<rparr>) = (set_choice key v gs)\<lparr>status := x\<rparr>"
  "p1_choice (set_choice key v gs\<lparr>status := x\<rparr>) = p1_choice (set_choice key v gs)"
  "p2_choice (set_choice key v gs\<lparr>status := x\<rparr>) = p2_choice (set_choice key v gs)"
  by (cases key; simp)+

lemma unset_gs:
  "unset_status (s\<lparr>game_state_json := g\<rparr>)
     = (unset_status s)\<lparr>game_state_json := g\<lparr>status := JUndefined\<rparr>\<rparr>"
  by (simp add: unset_status_def)

lemma player_key_of_unset: "player_key_of c (unset_status s) = player_key_of c s"
  by (simp add: player_key_of_def unset_fields)

lemma pvb_choice_blank:
  "blank_status (pvb_choice env cq params k s w)
     = blank_status (pvb_choice env cq params k (unset_status s) (blank_status w))"
  by (simp add: pvb_choice_def Let_def awaited_def blank_finalize blank_bot_call blank_idem
        unset_fields)

lemma pvp_resolve_blank:
  "blank_status (pvp_resolve env k s gs w)
     = blank_status (pvp_resolve env k (unset_status s) (gs\<lparr>status := JUndefined\<rparr>) (blank_status w))"
  by (simp add: pvp_resolve_def Let_def awaited_def blank_finalize blank_bot_call blank_idem
        blank_clearTimeout unset_fields split: option.split)

lemma pvp_submit_blank:
  "blank_status (pvp_submit env cq params k s w)
     = blank_status (pvp_submit env cq params k (unset_status s) (blank_status w))"
proof (cases "player_key_of (uid (cq_from cq)) s")
  case None
  then show ?thesis
    by (simp add: pvp_submit_def Let_def awaited_def player_key_of_unset blank_bot_call blank_idem)
next
  case (Some key)
  let ?gs1 = "set_choice key (param0 params) (game_state_json s)"
  have r': "blank_status (pvp_resolve env k (s\<lparr>game_state_json := ?gs1\<rparr>) ?gs1 v)
           = blank_status (pvp_resolve env k (unset_status s\<lparr>game_state_json := ?gs1\<lparr>status := JUndefined\<rparr>\<rparr>)
                 (?gs1\<lparr>status := JUndefined\<rparr>) (blank_status v))" for v
    using pvp_resolve_blank [of env k "s\<lparr>game_state_json := ?gs1\<rparr>" ?gs1 v]
    by (simp add: unset_status_def)
  show ?thesis
    using Some
    by (simp add: pvp_submit_def Let_def awaited_def player_key_of_unset blank_bot_call blank_idem
          blank_store unset_fields choice_status_fields unset_gs unset_status_idem r')
qed


lemma accept_pvp_blank:
  assumes "unset_status s1 = unset_status s2"
  shows "blank_status (runRPSPvP env s1 (bot_call c (store_session k s1 w)))
           = blank_status (runRPSPvP env s2 (bot_call c (store_session k s2 (blank_status w))))"
proof -
  have "blank_status (runRPSPvP env s1 (bot_call c (store_session k s1 w)))
          = blank_status (runRPSPvP env (unset_status s1)
              (bot_call c (store_session k (unset_status s1) (blank_status w))))"
    by (simp only: runRPSPvP_blank [of env s1] blank_bot_call blank_store)
  also have "\<dots> = blank_status (runRPSPvP env (unset_status s2)
              (bot_call c (store_session k (unset_status s2) (blank_status (blank_status w)))))"
    by (simp only: assms blank_idem)
  also have "\<dots> = blank_status (runRPSPvP env s2 (bot_call c (store_session k s2 (blank_status w))))"
    by (simp only: runRPSPvP_blank [of env s2] blank_bot_call blank_store)
  finally show ?thesis .
qed

lemma dispatch_blank:
  "blank_status (dispatch env cq action params k s w)
     = blank_status (dispatch env cq action params k (unset_status s) (blank_status w))"
proof -
  let ?c = "uid (cq_from cq)"
  define a1 where "a1 \<longleftrightarrow> action = ''cf_helper_cancel'' \<and> ?c = initiator_id s"
  define a2 where "a2 \<longleftrightarrow> action = ''cf_helper_accept_bot'' \<and> ?c = initiator_id s"
  define a3 where "a3 \<longleftrightarrow> action = ''cf_helper_accept_pvp'' \<and> ?c \<noteq> initiator_id s"
  define a4 where "a4 \<longleftrightarrow> action = ''cf_helper_accept_direct'' \<and> ?c = String_id (opponent_id s)"
  define a5 where "a5 \<longleftrightarrow> action = ''cf_helper_decline_direct'' \<and> ?c = String_id (opponent_id s)"
  define a6 where "a6 \<longleftrightarrow> action = ''rps_helper_pvb_choice''"
  define a7 where "a7 \<longleftrightarrow> action = ''rps_helper_pvp_submit''"
  note defs = a1_def a2_def a3_def a4_def a5_def a6_def a7_def
  consider (cancel) a1 | (bot) a2 | (pvp) a3 | (direct) a4 | (decline) a5 | (pvb) a6 | (submit) a7
    | (other) "\<not> a1" "\<not> a2" "\<not> a3" "\<not> a4" "\<not> a5" "\<not> a6" "\<not> a7"
    by blast
  then show ?thesis
  proof cases
    case cancel
    then have "action = ''cf_helper_cancel''" "?c = initiator_id s"
      by (simp_all add: a1_def)
    then show ?thesis
      by (simp add: dispatch_def Let_def awaited_def unset_fields blank_finalize blank_bot_call
            blank_idem)
  next
    case bot
    then have "action = ''cf_helper_accept_bot''" "?c = initiator_id s"
      by (simp_all add: a2_def)
    then show ?thesis
      using runRPSPvB_blank [of env s "bot_call (AnswerCallbackQuery (cq_id cq) None) w"]
      by (simp add: dispatch_def Let_def awaited_def unset_fields blank_bot_call blank_idem)
  next
    case pvp
    then have c: "action = ''cf_helper_accept_pvp''" "?c \<noteq> initiator_id s"
      by (simp_all add: a3_def)
    have e: "unset_status (s\<lparr>opponent_id := Some i, game_state_json := (game_state_json s)\<lparr>opponentName := n\<rparr>\<rparr>)
               = unset_status (unset_status s\<lparr>opponent_id := Some i,
                   game_state_json := (game_state_json s)\<lparr>status := JUndefined, opponentName := n\<rparr>\<rparr>)"
      for i n
      by (simp add: unset_status_def)
    show ?thesis
      using c
      by (simp add: dispatch_def Let_def awaited_def unset_fields blank_store blank_idem
            accept_pvp_blank [OF e] e [symmetric] del: getPlayerDisplayReference.simps)
  next
    case direct
    then have "action = ''cf_helper_accept_direct''" "?c = String_id (opponent_id s)"
      by (simp_all add: a4_def)
    then show ?thesis
      using runRPSPvP_blank [of env s "bot_call (AnswerCallbackQuery (cq_id cq) None) w"]
      by (simp add: dispatch_def Let_def awaited_def unset_fields blank_bot_call blank_idem)
  next
    case decline
    then have "action = ''cf_helper_decline_direct''" "?c = String_id (opponent_id s)"
      by (simp_all add: a5_def)
    then show ?thesis
      by (simp add: dispatch_def Let_def awaited_def unset_fields blank_finalize blank_bot_call
            blank_idem)
  next
    case pvb
    then have "action = ''rps_helper_pvb_choice''"
      by (simp add: a6_def)
    then show ?thesis
      using pvb_choice_blank [of env cq params k s w]
      by (simp add: dispatch_def Let_def)
  next
    case submit
    then have "action = ''rps_helper_pvp_submit''"
      by (simp add: a7_def)
    then show ?thesis
      using pvp_submit_blank [of env cq params k s w]
      by (simp add: dispatch_def Let_def)
  next
    case other
    then have n: "\<not> (action = ''cf_helper_cancel'' \<and> ?c = initiator_id s)"
        "\<not> (action = ''cf_helper_accept_bot'' \<and> ?c = initiator_id s)"
        "\<not> (action = ''cf_helper_accept_pvp'' \<and> ?c \<noteq> initiator_id s)"
        "\<not> (action = ''cf_helper_accept_direct'' \<and> ?c = String_id (opponent_id s))"
        "\<not> (action = ''cf_helper_decline_direct'' \<and> ?c = String_id (opponent_id s))"
        "\<not> action = ''rps_helper_pvb_choice''" "\<not> action = ''rps_helper_pvp_submit''"
      by (simp_all add: defs)
    have "dispatch env cq action params k s' v = v"
      if "initiator_id s' = initiator_id s" "opponent_id s' = opponent_id s" for s' v
      by (simp only: dispatch_def Let_def that if_not_P [OF n(1)] if_not_P [OF n(2)]
            if_not_P [OF n(3)] if_not_P [OF n(4)] if_not_P [OF n(5)] if_not_P [OF n(6)]
            if_not_P [OF n(7)])
    then show ?thesis
      by (simp add: unset_fields blank_idem)
  qed
qed

lemma no_longer_active_blank:
  "blank_status (no_longer_active env cq w) = no_longer_active env cq (blank_status w)"
  by (simp add: no_longer_active_def awaited_def blank_bot_call)

lemma on_callback_query_blank:
  "blank_status (on_callback_query env cq w)
     = blank_status (on_callback_query env cq (blank_status w))"
proof -
  obtain action sid params where d: "decode_data (cq_data cq) = (action, sid, params)"
    by (cases "decode_data (cq_data cq)") auto
  show ?thesis
  proof (cases sid)
    case None
    with d show ?thesis
      by (simp add: on_callback_query_def no_longer_active_blank blank_idem)
  next
    case k: (Some k)
    show ?thesis
    proof (cases "activeHelperGames w k")
      case None
      with d k show ?thesis
        by (simp add: on_callback_query_def blank_games no_longer_active_blank blank_idem)
    next
      case (Some s)
      have c: "(case timeoutId s of None \<Rightarrow> blank_status w | Some h \<Rightarrow> clearTimeout h (blank_status w))
                 = blank_status (case timeoutId s of None \<Rightarrow> w | Some h \<Rightarrow> clearTimeout h w)"
        by (simp add: blank_clearTimeout split: option.split)
      from d k Some show ?thesis
        using dispatch_blank [of env cq action params k s
                "case timeoutId s of None \<Rightarrow> w | Some h \<Rightarrow> clearTimeout h w"]
        by (simp add: on_callback_query_def blank_games unset_fields c)
    qed
  qed
qed

text \<open>What each branch leaves at the session's key.\<close>

lemma finalize_keeps:
  assumes "activeHelperGames (finalizeAndRecordOutcome ok k st gs w) k = Some s'"
  shows "activeHelperGames w k = Some s'"
  using assms by (simp add: games_finalize split: if_splits)

lemma runRPSPvB_status:
  assumes "activeHelperGames (runRPSPvB env s w) (session_id s) = Some s'"
  shows "status (game_state_json s') = JStr ''pvb_awaiting_player_choice''"
proof -
  let ?s1 = "s\<lparr>game_state_json := (game_state_json s)\<lparr>status := JStr ''pvb_awaiting_player_choice''\<rparr>\<rparr>"
  have "activeHelperGames (runRPSPvB env s w) (session_id s) =
          Some (if edit_ok env then ?s1\<lparr>timeoutId := Some (next_timer w)\<rparr> else ?s1)"
    by (simp add: runRPSPvB_def Let_def awaited_def setTimeout_def store_session_def bot_call_def)
  with assms have "s' = (if edit_ok env then ?s1\<lparr>timeoutId := Some (next_timer w)\<rparr> else ?s1)"
    by simp
  then show ?thesis by simp
qed

lemma safeSendMessage_fields:
  "activeHelperGames (safeSendMessage ok c t w) = activeHelperGames w"
  "timers (safeSendMessage ok c t w) = timers w"
  "next_timer (safeSendMessage ok c t w) = next_timer w"
  "sql (safeSendMessage ok c t w) = sql w"
  "rps_sessions (safeSendMessage ok c t w) = rps_sessions w"
  by (simp_all add: safeSendMessage_def bot_call_def)

lemma runRPSPvP_status:
  assumes "activeHelperGames (runRPSPvP env s w) (session_id s) = Some s'"
  shows "status (game_state_json s') = JStr ''pvp_awaiting_choices''"
proof -
  let ?s1 = "s\<lparr>game_state_json := (game_state_json s)\<lparr>status := JStr ''pvp_awaiting_choices'',
                     p1_choice := JNull, p2_choice := JNull\<rparr>\<rparr>"
  have "activeHelperGames (runRPSPvP env s w) (session_id s) =
          Some (if edit_ok env then ?s1\<lparr>timeoutId := Some (next_timer w)\<rparr> else ?s1)"
    by (simp add: runRPSPvP_def Let_def awaited_def setTimeout_def store_session_def bot_call_def
          safeSendMessage_fields)
  with assms have "s' = (if edit_ok env then ?s1\<lparr>timeoutId := Some (next_timer w)\<rparr> else ?s1)"
    by simp
  then show ?thesis by simp
qed

lemma pvb_choice_keeps:
  assumes "activeHelperGames (pvb_choice env cq params k s w) k = Some s'"
  shows "activeHelperGames w k = Some s'"
proof (cases "uid (cq_from cq) = initiator_id s")
  case True
  with assms show ?thesis
    by (simp add: pvb_choice_def Let_def awaited_def games_finalize games_bot_call
          split: if_splits)
next
  case False
  with assms show ?thesis
    by (simp add: pvb_choice_def Let_def)
qed

lemma status_set_choice: "status (set_choice key v gs) = status gs"
  by (cases key) simp_all

lemma games_pvp_resolve:
  "activeHelperGames (pvp_resolve env k s gs w) =
     (if edit2_ok env \<and> write_ok env then (activeHelperGames w)(k := None)
      else activeHelperGames w)"
  by (simp add: pvp_resolve_def Let_def awaited_def games_finalize games_bot_call clear_fields)

lemma pvp_submit_status:
  assumes "activeHelperGames w k = Some s"
      and "activeHelperGames (pvp_submit env cq params k s w) k = Some s'"
  shows "status (game_state_json s') = status (game_state_json s)"
proof (cases "player_key_of (uid (cq_from cq)) s")
  case None
  with assms show ?thesis
    by (simp add: pvp_submit_def Let_def awaited_def games_bot_call split: if_splits)
next
  case (Some key)
  show ?thesis
  proof (cases "truthy (get_choice key (game_state_json s))")
    case True
    with Some assms show ?thesis
      by (simp add: pvp_submit_def Let_def awaited_def games_bot_call split: if_splits)
  next
    case False
    let ?s1 = "s\<lparr>game_state_json := set_choice key (param0 params) (game_state_json s)\<rparr>"
    have "activeHelperGames (pvp_submit env cq params k s w) k = Some ?s1
          \<or> activeHelperGames (pvp_submit env cq params k s w) k = None"
      using Some False
      by (simp add: pvp_submit_def Let_def awaited_def games_bot_call games_pvp_resolve
            store_session_def)
    with assms(2) have "s' = ?s1" by simp
    then show ?thesis by (simp add: status_set_choice)
  qed
qed

lemma dispatch_status:
  assumes k: "session_id s = k"
      and s: "activeHelperGames w k = Some s"
      and s': "activeHelperGames (dispatch env cq action params k s w) k = Some s'"
  shows "status (game_state_json s') =
           (if answer_ok env \<and> action = ''cf_helper_accept_bot'' \<and> uid (cq_from cq) = initiator_id s
            then JStr ''pvb_awaiting_player_choice''
            else if answer_ok env
                    \<and> ((action = ''cf_helper_accept_pvp'' \<and> uid (cq_from cq) \<noteq> initiator_id s)
                       \<or> (action = ''cf_helper_accept_direct''
                           \<and> uid (cq_from cq) = String_id (opponent_id s)))
            then JStr ''pvp_awaiting_choices''
            else status (game_state_json s))"
proof -
  let ?c = "uid (cq_from cq)"
  define a1 where "a1 \<longleftrightarrow> action = ''cf_helper_cancel'' \<and> ?c = initiator_id s"
  define a2 where "a2 \<longleftrightarrow> action = ''cf_helper_accept_bot'' \<and> ?c = initiator_id s"
  define a3 where "a3 \<longleftrightarrow> action = ''cf_helper_accept_pvp'' \<and> ?c \<noteq> initiator_id s"
  define a4 where "a4 \<longleftrightarrow> action = ''cf_helper_accept_direct'' \<and> ?c = String_id (opponent_id s)"
  define a5 where "a5 \<longleftrightarrow> action = ''cf_helper_decline_direct'' \<and> ?c = String_id (opponent_id s)"
  define a6 where "a6 \<longleftrightarrow> action = ''rps_helper_pvb_choice''"
  define a7 where "a7 \<longleftrightarrow> action = ''rps_helper_pvp_submit''"
  note defs = a1_def a2_def a3_def a4_def a5_def a6_def a7_def
  consider (cancel) a1 | (bot) a2 | (pvp) a3 | (direct) a4 | (decline) a5 | (pvb) a6 | (submit) a7
    | (other) "\<not> a1" "\<not> a2" "\<not> a3" "\<not> a4" "\<not> a5" "\<not> a6" "\<not> a7"
    by blast
  then show ?thesis
  proof cases
    case cancel
    then have cancel: "action = ''cf_helper_cancel''" "?c = initiator_id s"
      by (simp_all add: a1_def)
    with s' have "activeHelperGames w k = Some s'"
      by (simp add: dispatch_def Let_def awaited_def games_finalize games_bot_call
            split: if_splits)
    with s cancel show ?thesis by simp
  next
    case bot
    then have bot: "action = ''cf_helper_accept_bot''" "?c = initiator_id s"
      by (simp_all add: a2_def)
    show ?thesis
    proof (cases "answer_ok env")
      case True
      with s' k bot
      have "activeHelperGames (runRPSPvB env s (bot_call (AnswerCallbackQuery (cq_id cq) None) w))
              (session_id s) = Some s'"
        by (simp add: dispatch_def Let_def awaited_def)
      from runRPSPvB_status [OF this] bot True show ?thesis by simp
    next
      case False
      with s' bot have "activeHelperGames w k = Some s'"
        by (simp add: dispatch_def Let_def awaited_def)
      with s False show ?thesis by simp
    qed
  next
    case pvp
    then have pvp: "action = ''cf_helper_accept_pvp''" "?c \<noteq> initiator_id s"
      by (simp_all add: a3_def)
    define n where "n = JStr (getPlayerDisplayReference (Some (cq_from cq)))"
    let ?s1 = "s\<lparr>opponent_id := Some ?c, game_state_json := (game_state_json s)\<lparr>opponentName := n\<rparr>\<rparr>"
    have d: "dispatch env cq action params k s w
               = awaited (answer_ok env) (AnswerCallbackQuery (cq_id cq) None)
                   (runRPSPvP env ?s1) (store_session k ?s1 w)"
      using pvp by (simp add: dispatch_def Let_def n_def del: getPlayerDisplayReference.simps)
    show ?thesis
    proof (cases "answer_ok env")
      case True
      have "session_id ?s1 = k" using k by simp
      with s' True have "activeHelperGames (runRPSPvP env ?s1
               (bot_call (AnswerCallbackQuery (cq_id cq) None) (store_session k ?s1 w)))
               (session_id ?s1) = Some s'"
        by (simp add: d awaited_def)
      from runRPSPvP_status [OF this] pvp True show ?thesis by simp
    next
      case False
      with s' have "s' = ?s1"
        by (simp add: d awaited_def store_session_def)
      with False show ?thesis by simp
    qed
  next
    case direct
    then have direct: "action = ''cf_helper_accept_direct''" "?c = String_id (opponent_id s)"
      by (simp_all add: a4_def)
    show ?thesis
    proof (cases "answer_ok env")
      case True
      with s' k direct
      have "activeHelperGames (runRPSPvP env s (bot_call (AnswerCallbackQuery (cq_id cq) None) w))
              (session_id s) = Some s'"
        by (simp add: dispatch_def Let_def awaited_def)
      from runRPSPvP_status [OF this] direct True show ?thesis by simp
    next
      case False
      with s' direct have "activeHelperGames w k = Some s'"
        by (simp add: dispatch_def Let_def awaited_def)
      with s False show ?thesis by simp
    qed
  next
    case decline
    then have decline: "action = ''cf_helper_decline_direct''" "?c = String_id (opponent_id s)"
      by (simp_all add: a5_def)
    with s' have "activeHelperGames w k = Some s'"
      by (simp add: dispatch_def Let_def awaited_def games_finalize games_bot_call
            split: if_splits)
    with s decline show ?thesis by simp
  next
    case pvb
    then have pvb: "action = ''rps_helper_pvb_choice''"
      by (simp add: a6_def)
    with s' have "activeHelperGames (pvb_choice env cq params k s w) k = Some s'"
      by (simp add: dispatch_def Let_def)
    from pvb_choice_keeps [OF this] s pvb show ?thesis by simp
  next
    case submit
    then have submit: "action = ''rps_helper_pvp_submit''"
      by (simp add: a7_def)
    with s' have "activeHelperGames (pvp_submit env cq params k s w) k = Some s'"
      by (simp add: dispatch_def Let_def)
    from pvp_submit_status [OF s this] submit show ?thesis by simp
  next
    case other
    then have n: "\<not> (action = ''cf_helper_cancel'' \<and> ?c = initiator_id s)"
        "\<not> (action = ''cf_helper_accept_bot'' \<and> ?c = initiator_id s)"
        "\<not> (action = ''cf_helper_accept_pvp'' \<and> ?c \<noteq> initiator_id s)"
        "\<not> (action = ''cf_helper_accept_direct'' \<and> ?c = String_id (opponent_id s))"
        "\<not> (action = ''cf_helper_decline_direct'' \<and> ?c = String_id (opponent_id s))"
        "\<not> action = ''rps_helper_pvb_choice''" "\<not> action = ''rps_helper_pvp_submit''"
      by (simp_all add: defs)
    have "dispatch env cq action params k s w = w"
      by (simp only: dispatch_def Let_def if_not_P [OF n(1)] if_not_P [OF n(2)]
            if_not_P [OF n(3)] if_not_P [OF n(4)] if_not_P [OF n(5)] if_not_P [OF n(6)]
            if_not_P [OF n(7)])
    with s' s have "s' = s" by simp
    moreover have "\<not> (answer_ok env \<and> action = ''cf_helper_accept_bot'' \<and> ?c = initiator_id s)"
      using n(2) by simp
    moreover have "\<not> (answer_ok env
                    \<and> ((action = ''cf_helper_accept_pvp'' \<and> ?c \<noteq> initiator_id s)
                       \<or> (action = ''cf_helper_accept_direct'' \<and> ?c = String_id (opponent_id s))))"
      using n(3,4) by simp
    ultimately show ?thesis
      by (simp only: if_not_P if_False)
  qed
qed

text \<open>
  C4, as the code has it. The handler of button events never reads \<open>GameState.status\<close>:
  two states that differ in nothing but the status of their sessions are taken by the
  same event to two states that again differ in nothing but that, so no event is
  discarded or treated differently because of a sub-state. The handler writes the status
  when play is entered. For an event on a session in the table that leaves the session
  there: when the awaited answer to the event resolves, an accept-bot event of the
  initiator sets the status to \<open>pvb_awaiting_player_choice\<close>, and an accept-pvp event of
  anyone but the initiator or an accept-direct event of the opponent sets it to
  \<open>pvp_awaiting_choices\<close>, whatever it was before; every other event, and every event
  whose answer is rejected, leaves it as it was.
\<close>

theorem status_written_on_entering_play:
  "(blank_status w = blank_status w' \<longrightarrow>
      blank_status (on_callback_query env cq w) = blank_status (on_callback_query env cq w'))
   \<and> (decode_data (cq_data cq) = (action, Some k, params)
        \<and> activeHelperGames w k = Some s \<and> session_id s = k
        \<and> activeHelperGames (on_callback_query env cq w) k = Some s' \<longrightarrow>
      status (game_state_json s') =
        (if answer_ok env \<and> action = ''cf_helper_accept_bot'' \<and> uid (cq_from cq) = initiator_id s
         then JStr ''pvb_awaiting_player_choice''
         else if answer_ok env
                 \<and> ((action = ''cf_helper_accept_pvp'' \<and> uid (cq_from cq) \<noteq> initiator_id s)
                    \<or> (action = ''cf_helper_accept_direct''
                        \<and> uid (cq_from cq) = String_id (opponent_id s)))
         then JStr ''pvp_awaiting_choices''
         else status (game_state_json s)))"
proof (intro conjI impI)
  assume e: "blank_status w = blank_status w'"
  have "blank_status (on_callback_query env cq w)
          = blank_status (on_callback_query env cq (blank_status w))"
    by (rule on_callback_query_blank)
  also have "\<dots> = blank_status (on_callback_query env cq (blank_status w'))"
    by (simp only: e)
  also have "\<dots> = blank_status (on_callback_query env cq w')"
    by (rule on_callback_query_blank [symmetric])
  finally show "blank_status (on_callback_query env cq w)
                  = blank_status (on_callback_query env cq w')" .
next
  assume h: "decode_data (cq_data cq) = (action, Some k, params)
        \<and> activeHelperGames w k = Some s \<and> session_id s = k
        \<and> activeHelperGames (on_callback_query env cq w) k = Some s'"
  let ?w0 = "case timeoutId s of None \<Rightarrow> w | Some h \<Rightarrow> clearTimeout h w"
  from h have d: "decode_data (cq_data cq) = (action, Some k, params)"
    and f: "activeHelperGames w k = Some s" and i: "session_id s = k"
    and r: "activeHelperGames (on_callback_query env cq w) k = Some s'"
    by (rule conjunct1, rule conjunct2 [THEN conjunct1],
        rule conjunct2 [THEN conjunct2, THEN conjunct1],
        rule conjunct2 [THEN conjunct2, THEN conjunct2])
  have a: "activeHelperGames ?w0 k = Some s"
    using f by (simp add: clear_fields)
  have b: "activeHelperGames (dispatch env cq action params k s ?w0) k = Some s'"
    using r by (simp add: on_callback_query_found [OF d f])
  show "status (game_state_json s') =
        (if answer_ok env \<and> action = ''cf_helper_accept_bot'' \<and> uid (cq_from cq) = initiator_id s
         then JStr ''pvb_awaiting_player_choice''
         else if answer_ok env
                 \<and> ((action = ''cf_helper_accept_pvp'' \<and> uid (cq_from cq) \<noteq> initiator_id s)
                    \<or> (action = ''cf_helper_accept_direct''
                        \<and> uid (cq_from cq) = String_id (opponent_id s)))
         then JStr ''pvp_awaiting_choices''
         else status (game_state_json s))"
    by (rule dispatch_status [OF i a b])
qed

text \<open>
  An instance: the offer of the sample session is accepted by user 200, from the sample
  state and from the same state with the status of its session changed.
\<close>

lemma sample_pvp_session_found: "activeHelperGames sample_pvp_world 1 = Some sample_pvp_session"
  by code_simp

theorem status_written_on_entering_play_witness:
  "blank_status sample_world = blank_status sample_stale_world
   \<and> sample_world \<noteq> sample_stale_world
   \<and> blank_status (on_callback_query (sample_env True)
        (sample_callback ''cf_helper_accept_pvp:1'' ''200'') sample_world)
     = blank_status (on_callback_query (sample_env True)
        (sample_callback ''cf_helper_accept_pvp:1'' ''200'') sample_stale_world)
   \<and> decode_data (cq_data (sample_callback ''cf_helper_accept_pvp:1'' ''200''))
     = (''cf_helper_accept_pvp'', Some 1, [])
   \<and> activeHelperGames sample_world 1 = Some sample_session
   \<and> activeHelperGames sample_pvp_world 1 = Some sample_pvp_session
   \<and> status (game_state_json sample_pvp_session) = JStr ''pvp_awaiting_choices''"
proof -
  let ?cq = "sample_callback ''cf_helper_accept_pvp:1'' ''200''"
  note t = status_written_on_entering_play [of sample_world sample_stale_world "sample_env True" ?cq
             "''cf_helper_accept_pvp''" 1 "[]" sample_session sample_pvp_session]
  have e: "blank_status sample_world = blank_status sample_stale_world"
    by (simp add: blank_status_def sample_world_def sample_stale_world_def unset_status_def
          sample_session_def fun_eq_iff)
  have n: "sample_world \<noteq> sample_stale_world"
  proof
    assume "sample_world = sample_stale_world"
    then have "activeHelperGames sample_world 1 = activeHelperGames sample_stale_world 1"
      by (rule arg_cong)
    then show False
      by (simp add: sample_world_def sample_stale_world_def sample_session_def sample_state_def)
  qed
  have d: "decode_data (cq_data ?cq) = (''cf_helper_accept_pvp'', Some 1, [])"
    by code_simp
  have s: "activeHelperGames sample_world 1 = Some sample_session"
    by (simp add: sample_world_def)
  have k: "session_id sample_session = 1"
    by (simp add: sample_session_def)
  have a: "activeHelperGames (on_callback_query (sample_env True) ?cq sample_world) 1
             = Some sample_pvp_session"
    using sample_pvp_session_found by (simp add: sample_pvp_world_def)
  have u: "uid (cq_from ?cq) \<noteq> initiator_id sample_session"
    by (simp add: sample_callback_def sample_session_def)
  have o: "answer_ok (sample_env True)"
    by (simp add: sample_env_def)
  have c1: "blank_status (on_callback_query (sample_env True) ?cq sample_world)
              = blank_status (on_callback_query (sample_env True) ?cq sample_stale_world)"
    by (rule t [THEN conjunct1, THEN mp, OF e])
  have "status (game_state_json sample_pvp_session) =
        (if answer_ok (sample_env True) \<and> ''cf_helper_accept_pvp'' = ''cf_helper_accept_bot''
              \<and> uid (cq_from ?cq) = initiator_id sample_session
         then JStr ''pvb_awaiting_player_choice''
         else if answer_ok (sample_env True)
                 \<and> ((''cf_helper_accept_pvp'' = ''cf_helper_accept_pvp''
                      \<and> uid (cq_from ?cq) \<noteq> initiator_id sample_session)
                    \<or> (''cf_helper_accept_pvp'' = ''cf_helper_accept_direct''
                        \<and> uid (cq_from ?cq) = String_id (opponent_id sample_session)))
         then JStr ''pvp_awaiting_choices''
         else status (game_state_json sample_session))"
    by (rule t [THEN conjunct2, THEN mp, OF conjI [OF d conjI [OF s conjI [OF k a]]]])
  then have c2: "status (game_state_json sample_pvp_session) = JStr ''pvp_awaiting_choices''"
    using u o by simp
  show ?thesis
    by (intro conjI e n c1 d s sample_pvp_session_found c2)
qed

text \<open>
  C4 as stated fails: the sample session, already in \<open>pvp_awaiting_choices\<close>, is moved to
  \<open>pvb_awaiting_player_choice\<close> by an accept-bot event of its initiator, and a cancel event
  of the initiator finalizes it as cancelled.
\<close>

theorem entered_play_can_be_left:
  "map_option (status \<circ> game_state_json) (activeHelperGames sample_pvp_world 1)
     = Some (JStr ''pvp_awaiting_choices'')
   \<and> map_option (status \<circ> game_state_json)
       (activeHelperGames (on_callback_query (sample_env True)
          (sample_callback ''cf_helper_accept_bot:1'' ''100'') sample_pvp_world) 1)
     = Some (JStr ''pvb_awaiting_player_choice'')
   \<and> final_writes (sql (on_callback_query (sample_env True)
          (sample_callback ''cf_helper_cancel:1'' ''100'') sample_pvp_world))
     = [(1, ''completed_cancelled'')]"
  by code_simp

section \<open>The timer and rejected events\<close>

text \<open>
  C5 on the code. The sample session waits for its initiator's choice against the bot,
  its timer pending. A choice sent by user 999, who is not the initiator, is rejected:
  the session, the transport trace and the datastore are as before. The timer is no
  longer pending; \<open>clearTimeout\<close> ran before the action and the sender were looked at.
  The same happens to the duel's timer when user 999 submits a choice for a duel of
  users 100 and 200.
\<close>

theorem rejected_callback_disarms_timer:
  "timers sample_pvb_world 0 = Some (1, ''pvb_player_turn'')
   \<and> map_option timeoutId (activeHelperGames sample_pvb_world 1) = Some (Some 0)
   \<and> activeHelperGames (on_callback_query (sample_env True)
        (sample_callback ''rps_helper_pvb_choice:1:rock'' ''999'') sample_pvb_world) 1
      = activeHelperGames sample_pvb_world 1
   \<and> transport (on_callback_query (sample_env True)
        (sample_callback ''rps_helper_pvb_choice:1:rock'' ''999'') sample_pvb_world)
      = transport sample_pvb_world
   \<and> sql (on_callback_query (sample_env True)
        (sample_callback ''rps_helper_pvb_choice:1:rock'' ''999'') sample_pvb_world)
      = sql sample_pvb_world
   \<and> timers (on_callback_query (sample_env True)
        (sample_callback ''rps_helper_pvb_choice:1:rock'' ''999'') sample_pvb_world) 0 = None
   \<and> timers sample_pvp_world 0 = Some (1, ''pvp_choices'')
   \<and> activeHelperGames (on_callback_query (sample_env True)
        (sample_callback ''rps_helper_pvp_submit:1:rock'' ''999'') sample_pvp_world) 1
      = activeHelperGames sample_pvp_world 1
   \<and> transport (on_callback_query (sample_env True)
        (sample_callback ''rps_helper_pvp_submit:1:rock'' ''999'') sample_pvp_world)
      = transport sample_pvp_world
          @ [AnswerCallbackQuery ''q'' (Some ''You have already made a choice.'')]
   \<and> timers (on_callback_query (sample_env True)
        (sample_callback ''rps_helper_pvp_submit:1:rock'' ''999'') sample_pvp_world) 0 = None"
  by code_simp

section \<open>Choices in a duel\<close>

lemma pvp_submit_split:
  "pvp_submit env cq params k s w =
     (case pvp_submit_begin cq params k s w of
        (taken, s1, w1) \<Rightarrow> pvp_submit_resume env cq k taken s1 w1)"
  by (simp add: pvp_submit_def pvp_submit_begin_def pvp_submit_resume_def Let_def
        split: option.split cong: if_cong)

lemma dispatch_submit:
  "dispatch env cq ''rps_helper_pvp_submit'' params k s w = pvp_submit env cq params k s w"
  by (simp add: dispatch_def Let_def)

lemma submit_found:
  assumes "decode_data (cq_data cq) = (''rps_helper_pvp_submit'', Some k, params)"
      and "activeHelperGames w k = Some s"
  shows "on_callback_query env cq w =
           pvp_submit env cq params k s (case timeoutId s of None \<Rightarrow> w | Some h \<Rightarrow> clearTimeout h w)"
  by (simp add: on_callback_query_found [OF assms] dispatch_submit)

text \<open>The two ways a submission goes: it is rejected, or the choice is taken.\<close>

lemma pvp_submit_rejected:
  assumes "player_key_of (uid (cq_from cq)) s = None
           \<or> (\<exists>key. player_key_of (uid (cq_from cq)) s = Some key \<and> truthy (get_choice key (game_state_json s)))"
  shows "pvp_submit env cq params k s w =
           awaited (answer_ok env)
             (AnswerCallbackQuery (cq_id cq) (Some ''You have already made a choice.''))
             (\<lambda>w1. w1) w"
  using assms by (auto simp: pvp_submit_def Let_def)

lemma pvp_submit_taken:
  assumes "player_key_of (uid (cq_from cq)) s = Some key"
      and "\<not> truthy (get_choice key (game_state_json s))"
  shows "pvp_submit env cq params k s w =
           awaited (answer_ok env)
             (AnswerCallbackQuery (cq_id cq) (Some ''Your choice is locked in!''))
             (awaited (edit_ok env)
                (EditMessageText TxtChoiceLocked (DirectTo (uid (cq_from cq)))
                   (Some (cq_message_id cq)) False)
                (\<lambda>w3. if truthy (p1_choice (set_choice key (param0 params) (game_state_json s)))
                         \<and> truthy (p2_choice (set_choice key (param0 params) (game_state_json s)))
                      then pvp_resolve env k
                             (s\<lparr>game_state_json := set_choice key (param0 params) (game_state_json s)\<rparr>)
                             (set_choice key (param0 params) (game_state_json s)) w3
                      else w3))
             (store_session k
                (s\<lparr>game_state_json := set_choice key (param0 params) (game_state_json s)\<rparr>) w)"
  using assms by (simp add: pvp_submit_def Let_def)

lemma get_set_choice: "get_choice key (set_choice key v gs) = v"
  by (cases key) simp_all

lemma get_set_other: "key \<noteq> key' \<Longrightarrow> get_choice key (set_choice key' v gs) = get_choice key gs"
  by (cases key; cases key') simp_all

lemma sql_pvp_resolve:
  "sql (pvp_resolve env k s gs w) =
     sql w @ (if edit2_ok env
              then [SqlFinalUpdate k (pvp_finalStatus (result
                      (determineRPSOutcome (p1_choice gs) (p2_choice gs)
                         (JStr (escapeHTML (initiatorName gs))) (JStr (escapeHTML (opponentName gs))))))]
              else [])"
  by (simp add: pvp_resolve_def Let_def awaited_def sql_finalize sql_bot_call clear_fields)

lemma sql_no_longer_active: "sql (no_longer_active env cq w) = sql w"
  by (simp add: no_longer_active_def awaited_def sql_bot_call)

lemma games_no_longer_active: "activeHelperGames (no_longer_active env cq w) = activeHelperGames w"
  by (simp add: no_longer_active_def awaited_def games_bot_call)

lemma unset_not_settled:
  assumes "activeHelperGames w k = Some s" and "\<not> truthy (get_choice key (game_state_json s))"
  shows "\<not> settled k w"
  using assms by (cases key) (simp_all add: settled_def)

text \<open>What a rejected and what a taken submission leave behind.\<close>

lemma rejected_fields:
  assumes "after = awaited ok (AnswerCallbackQuery i t) (\<lambda>w1. w1)
                     (case h of None \<Rightarrow> w | Some x \<Rightarrow> clearTimeout x w)"
  shows "activeHelperGames after = activeHelperGames w" "sql after = sql w"
    "rps_sessions after = rps_sessions w"
    "transport after = transport w @ (if ok then [AnswerCallbackQuery i t] else [])"
  by (simp_all add: assms awaited_def games_bot_call sql_bot_call rows_bot_call
        transport_bot_call clear_fields)

lemma taken_fields:
  fixes env :: env
  defines "ok3 \<equiv> answer_ok env \<and> edit_ok env \<and> edit2_ok env"
  assumes a: "after = awaited (answer_ok env) c1
                (awaited (edit_ok env) c2 (\<lambda>w3. if both then pvp_resolve env k s1 gs1 w3 else w3))
                (store_session k s1 (case h of None \<Rightarrow> w | Some x \<Rightarrow> clearTimeout x w))"
  shows "activeHelperGames after =
           (if both \<and> ok3 \<and> write_ok env then (activeHelperGames w)(k := None)
            else (activeHelperGames w)(k \<mapsto> s1))"
    and "sql after = sql w @
           (if both \<and> ok3
            then [SqlFinalUpdate k (pvp_finalStatus (result
                    (determineRPSOutcome (p1_choice gs1) (p2_choice gs1)
                       (JStr (escapeHTML (initiatorName gs1))) (JStr (escapeHTML (opponentName gs1))))))]
            else [])"
    and "\<not> both \<Longrightarrow> rps_sessions after = rps_sessions w"
    and "\<not> both \<Longrightarrow> transport after = transport w @
           (if answer_ok env then c1 # (if edit_ok env then [c2] else []) else [])"
proof -
  show "activeHelperGames after =
           (if both \<and> ok3 \<and> write_ok env then (activeHelperGames w)(k := None)
            else (activeHelperGames w)(k \<mapsto> s1))"
    by (simp add: a ok3_def awaited_def games_bot_call games_pvp_resolve store_fields clear_fields)
  show "sql after = sql w @
           (if both \<and> ok3
            then [SqlFinalUpdate k (pvp_finalStatus (result
                    (determineRPSOutcome (p1_choice gs1) (p2_choice gs1)
                       (JStr (escapeHTML (initiatorName gs1))) (JStr (escapeHTML (opponentName gs1))))))]
            else [])"
    by (simp add: a ok3_def awaited_def sql_bot_call sql_pvp_resolve store_fields clear_fields)
  show "rps_sessions after = rps_sessions w" if "\<not> both"
    using that by (simp add: a awaited_def rows_bot_call store_fields clear_fields)
  show "transport after = transport w @
           (if answer_ok env then c1 # (if edit_ok env then [c2] else []) else [])" if "\<not> both"
    using that by (simp add: a awaited_def transport_bot_call store_fields clear_fields)
qed

text \<open>
  One submission: either no finalizing write is made and a settled session stays
  settled, or the session was not settled, one finalizing write is made, and the session
  is settled afterwards.
\<close>

lemma submit_step:
  assumes d: "decode_data (cq_data cq) = (''rps_helper_pvp_submit'', Some k, params)"
  shows "(final_writes (sql (on_callback_query env cq w)) = final_writes (sql w)
            \<and> (settled k w \<longrightarrow> settled k (on_callback_query env cq w)))
         \<or> (\<not> settled k w
            \<and> length (final_writes (sql (on_callback_query env cq w))) = Suc (length (final_writes (sql w)))
            \<and> settled k (on_callback_query env cq w))"
proof (cases "activeHelperGames w k")
  case None
  then show ?thesis
    by (simp add: on_callback_query_absent [OF d None] sql_no_longer_active games_no_longer_active
          settled_def)
next
  case (Some s)
  let ?w0 = "case timeoutId s of None \<Rightarrow> w | Some h \<Rightarrow> clearTimeout h w"
  let ?gs = "game_state_json s"
  let ?after = "on_callback_query env cq w"
  note R = submit_found [OF d Some]
  have rejected: ?thesis
    if "pvp_submit env cq params k s ?w0 =
          awaited (answer_ok env)
            (AnswerCallbackQuery (cq_id cq) (Some ''You have already made a choice.''))
            (\<lambda>w1. w1) ?w0"
  proof -
    have "?after = awaited (answer_ok env)
            (AnswerCallbackQuery (cq_id cq) (Some ''You have already made a choice.''))
            (\<lambda>w1. w1) ?w0"
      using that by (simp only: R)
    from rejected_fields(1,2) [OF this] show ?thesis
      by (simp add: settled_def)
  qed
  show ?thesis
  proof (cases "player_key_of (uid (cq_from cq)) s")
    case None
    then show ?thesis
      by (intro rejected pvp_submit_rejected) simp
  next
    case key: (Some key)
    show ?thesis
    proof (cases "truthy (get_choice key ?gs)")
      case True
      with key show ?thesis
        by (intro rejected pvp_submit_rejected) simp
    next
      case False
      let ?gs1 = "set_choice key (param0 params) ?gs"
      let ?s1 = "s\<lparr>game_state_json := ?gs1\<rparr>"
      let ?both = "truthy (p1_choice ?gs1) \<and> truthy (p2_choice ?gs1)"
      have ns: "\<not> settled k w"
        by (rule unset_not_settled [OF Some False])
      have t: "?after = awaited (answer_ok env)
             (AnswerCallbackQuery (cq_id cq) (Some ''Your choice is locked in!''))
             (awaited (edit_ok env)
                (EditMessageText TxtChoiceLocked (DirectTo (uid (cq_from cq)))
                   (Some (cq_message_id cq)) False)
                (\<lambda>w3. if ?both then pvp_resolve env k ?s1 ?gs1 w3 else w3))
             (store_session k ?s1 ?w0)"
        by (simp only: R pvp_submit_taken [OF key False])
      note g = taken_fields(1) [OF t] and q = taken_fields(2) [OF t]
      show ?thesis
      proof (cases "?both \<and> answer_ok env \<and> edit_ok env \<and> edit2_ok env")
        case True
        then have len: "length (final_writes (sql ?after)) = Suc (length (final_writes (sql w)))"
          by (simp add: q final_writes_append)
        from True have "activeHelperGames ?after k = None \<or> activeHelperGames ?after k = Some ?s1"
          by (simp add: g)
        then have "settled k ?after"
          using True by (auto simp: settled_def)
        with ns len show ?thesis by simp
      next
        case False
        then have "sql ?after = sql w"
          by (auto simp: q)
        with ns show ?thesis by simp
      qed
    qed
  qed
qed

text \<open>One submission leaves a set choice field of a session that stays in the table as it is.\<close>

lemma submit_keeps_choice:
  assumes d: "decode_data (cq_data cq) = (''rps_helper_pvp_submit'', Some k, params)"
      and t: "activeHelperGames w k = Some t"
      and t': "activeHelperGames (on_callback_query env cq w) k = Some t'"
      and c: "truthy (get_choice key (game_state_json t))"
  shows "get_choice key (game_state_json t') = get_choice key (game_state_json t)"
proof -
  let ?w0 = "case timeoutId t of None \<Rightarrow> w | Some h \<Rightarrow> clearTimeout h w"
  let ?after = "on_callback_query env cq w"
  note R = submit_found [OF d t]
  have rejected: ?thesis
    if "pvp_submit env cq params k t ?w0 =
          awaited (answer_ok env)
            (AnswerCallbackQuery (cq_id cq) (Some ''You have already made a choice.''))
            (\<lambda>w1. w1) ?w0"
  proof -
    have "?after = awaited (answer_ok env)
            (AnswerCallbackQuery (cq_id cq) (Some ''You have already made a choice.''))
            (\<lambda>w1. w1) ?w0"
      using that by (simp only: R)
    from rejected_fields(1) [OF this] t t' show ?thesis
      by simp
  qed
  show ?thesis
  proof (cases "player_key_of (uid (cq_from cq)) t")
    case None
    then show ?thesis
      by (intro rejected pvp_submit_rejected) simp
  next
    case key': (Some key')
    show ?thesis
    proof (cases "truthy (get_choice key' (game_state_json t))")
      case True
      with key' show ?thesis
        by (intro rejected pvp_submit_rejected) simp
    next
      case False
      let ?gs1 = "set_choice key' (param0 params) (game_state_json t)"
      let ?s1 = "t\<lparr>game_state_json := ?gs1\<rparr>"
      let ?both = "truthy (p1_choice ?gs1) \<and> truthy (p2_choice ?gs1)"
      have "?after = awaited (answer_ok env)
             (AnswerCallbackQuery (cq_id cq) (Some ''Your choice is locked in!''))
             (awaited (edit_ok env)
                (EditMessageText TxtChoiceLocked (DirectTo (uid (cq_from cq)))
                   (Some (cq_message_id cq)) False)
                (\<lambda>w3. if ?both then pvp_resolve env k ?s1 ?gs1 w3 else w3))
             (store_session k ?s1 ?w0)"
        by (simp only: R pvp_submit_taken [OF key' False])
      from taken_fields(1) [OF this] t' have "t' = ?s1"
        by (simp split: if_splits)
      moreover have "key \<noteq> key'"
        using c False by auto
      ultimately show ?thesis
        by (simp add: get_set_other)
    qed
  qed
qed

lemma is_submit_forD:
  assumes "is_submit_for k (env, cq)"
  shows "\<exists>params. decode_data (cq_data cq) = (''rps_helper_pvp_submit'', Some k, params)"
proof -
  obtain a b c where "decode_data (cq_data cq) = (a, b, c)"
    by (cases "decode_data (cq_data cq)") auto
  with assms show ?thesis by (simp add: is_submit_for_def)
qed

lemma settled_run:
  assumes "settled k w" and "\<forall>ev \<in> set evs. is_submit_for k ev"
  shows "final_writes (sql (run_callbacks evs w)) = final_writes (sql w)"
  using assms
proof (induction evs arbitrary: w)
  case Nil
  then show ?case by simp
next
  case (Cons ev evs)
  obtain env cq where ev: "ev = (env, cq)" by (cases ev)
  have sf: "is_submit_for k (env, cq)"
    using Cons.prems(2) ev by simp
  from is_submit_forD [OF sf] obtain params where
    d: "decode_data (cq_data cq) = (''rps_helper_pvp_submit'', Some k, params)" ..
  from submit_step [OF d, of env w] Cons.prems(1)
  have "final_writes (sql (on_callback_query env cq w)) = final_writes (sql w)"
    and "settled k (on_callback_query env cq w)"
    by auto
  with Cons.IH [of "on_callback_query env cq w"] Cons.prems(2) ev show ?case
    by simp
qed

lemma verdict_at_most_once:
  assumes "\<forall>ev \<in> set evs. is_submit_for k ev"
  shows "length (final_writes (sql (run_callbacks evs w))) \<le> Suc (length (final_writes (sql w)))"
  using assms
proof (induction evs arbitrary: w)
  case Nil
  then show ?case by simp
next
  case (Cons ev evs)
  obtain env cq where ev: "ev = (env, cq)" by (cases ev)
  have sf: "is_submit_for k (env, cq)"
    using Cons.prems ev by simp
  from is_submit_forD [OF sf] obtain params where
    d: "decode_data (cq_data cq) = (''rps_helper_pvp_submit'', Some k, params)" ..
  let ?w1 = "on_callback_query env cq w"
  from submit_step [OF d, of env w]
  consider "final_writes (sql ?w1) = final_writes (sql w)"
    | "length (final_writes (sql ?w1)) = Suc (length (final_writes (sql w)))" "settled k ?w1"
    by auto
  then show ?case
  proof cases
    case 1
    with Cons.IH [of ?w1] Cons.prems ev show ?thesis by simp
  next
    case 2
    with settled_run [of k ?w1 evs] Cons.prems ev show ?thesis by simp
  qed
qed

lemma absent_run:
  assumes "\<forall>ev \<in> set evs. is_submit_for k ev" and "activeHelperGames w k = None"
  shows "activeHelperGames (run_callbacks evs w) k = None"
  using assms
proof (induction evs arbitrary: w)
  case Nil
  then show ?case by simp
next
  case (Cons ev evs)
  obtain env cq where ev: "ev = (env, cq)" by (cases ev)
  have sf: "is_submit_for k (env, cq)"
    using Cons.prems(1) ev by simp
  from is_submit_forD [OF sf] obtain params where
    d: "decode_data (cq_data cq) = (''rps_helper_pvp_submit'', Some k, params)" ..
  have "activeHelperGames (on_callback_query env cq w) k = None"
    using Cons.prems(2)
    by (simp add: on_callback_query_absent [OF d Cons.prems(2)] games_no_longer_active)
  with Cons.IH [of "on_callback_query env cq w"] Cons.prems(1) ev show ?case
    by simp
qed

lemma choices_kept_run:
  assumes "\<forall>ev \<in> set evs. is_submit_for k ev"
      and "activeHelperGames w k = Some t"
      and "activeHelperGames (run_callbacks evs w) k = Some t'"
      and "truthy (get_choice key (game_state_json t))"
  shows "get_choice key (game_state_json t') = get_choice key (game_state_json t)"
  using assms
proof (induction evs arbitrary: w t)
  case Nil
  then show ?case by simp
next
  case (Cons ev evs)
  obtain env cq where ev: "ev = (env, cq)" by (cases ev)
  have sf: "is_submit_for k (env, cq)"
    using Cons.prems(1) ev by simp
  have rest: "\<forall>ev \<in> set evs. is_submit_for k ev"
    using Cons.prems(1) by simp
  from is_submit_forD [OF sf] obtain params where
    d: "decode_data (cq_data cq) = (''rps_helper_pvp_submit'', Some k, params)" ..
  let ?w1 = "on_callback_query env cq w"
  have run: "activeHelperGames (run_callbacks evs ?w1) k = Some t'"
    using Cons.prems(3) ev by simp
  show ?case
  proof (cases "activeHelperGames ?w1 k")
    case None
    from absent_run [OF rest None] run show ?thesis by simp
  next
    case (Some t1)
    have k1: "get_choice key (game_state_json t1) = get_choice key (game_state_json t)"
      by (rule submit_keeps_choice [OF d Cons.prems(2) Some Cons.prems(4)])
    then have "truthy (get_choice key (game_state_json t1))"
      using Cons.prems(4) by simp
    from Cons.IH [OF rest Some run this] k1 show ?thesis by simp
  qed
qed

text \<open>
  C7, as the code has it. A choice submission for a session in the table, sent by its
  initiator or its opponent with a non-empty choice. If the sender's field is unset, the
  choice is stored in it before anything is awaited; when the other field is unset too,
  the status stays, nothing is written to the datastore, and the calls made are the
  acknowledgement and the edit of the sender's message, as far as they resolve. If the
  sender's field is already set, the event is rejected and neither the table nor the
  datastore changes. The verdict is computed, and the session finalized with it, in
  exactly the step that makes both fields set, and only if the three awaited calls of
  that step resolve. Over any run of choice submissions for one session, each handled
  to its end before the next, at most one finalizing write is made, and a choice field
  that is set keeps its value for as long as the session is in the table.
\<close>

theorem pvp_submission_locks_one_choice:
  assumes d: "decode_data (cq_data cq) = (''rps_helper_pvp_submit'', Some k, c # ps)"
      and s: "activeHelperGames w k = Some s"
      and key: "player_key_of (uid (cq_from cq)) s = Some key"
      and c: "c \<noteq> []"
      and evs: "\<forall>ev \<in> set evs. is_submit_for k ev"
  shows "(let gs = game_state_json s;
              gs1 = set_choice key (JStr c) gs;
              after = on_callback_query env cq w;
              both = (truthy (p1_choice gs1) \<and> truthy (p2_choice gs1));
              ok3 = (answer_ok env \<and> edit_ok env \<and> edit2_ok env)
          in (\<not> truthy (get_choice key gs) \<longrightarrow>
                activeHelperGames after =
                  (if both \<and> ok3 \<and> write_ok env then (activeHelperGames w)(k := None)
                   else (activeHelperGames w)(k \<mapsto> s\<lparr>game_state_json := gs1\<rparr>))
                \<and> get_choice key gs1 = JStr c \<and> truthy (get_choice key gs1)
                \<and> status gs1 = status gs
                \<and> (\<not> both \<longrightarrow>
                     sql after = sql w \<and> rps_sessions after = rps_sessions w
                     \<and> transport after = transport w @
                         (if answer_ok env
                          then AnswerCallbackQuery (cq_id cq) (Some ''Your choice is locked in!'')
                               # (if edit_ok env
                                  then [EditMessageText TxtChoiceLocked (DirectTo (uid (cq_from cq)))
                                          (Some (cq_message_id cq)) False]
                                  else [])
                          else [])))
           \<and> (truthy (get_choice key gs) \<longrightarrow>
                activeHelperGames after = activeHelperGames w
                \<and> sql after = sql w \<and> rps_sessions after = rps_sessions w
                \<and> transport after = transport w @
                     (if answer_ok env
                      then [AnswerCallbackQuery (cq_id cq) (Some ''You have already made a choice.'')]
                      else []))
           \<and> final_writes (sql after) = final_writes (sql w) @
                (if \<not> truthy (get_choice key gs) \<and> both \<and> ok3
                 then [(k, pvp_finalStatus (result (determineRPSOutcome (p1_choice gs1) (p2_choice gs1)
                            (JStr (escapeHTML (initiatorName gs1)))
                            (JStr (escapeHTML (opponentName gs1))))))]
                 else []))
       \<and> length (final_writes (sql (run_callbacks evs w'))) \<le> Suc (length (final_writes (sql w')))
       \<and> (activeHelperGames w' k = Some t \<and> activeHelperGames (run_callbacks evs w') k = Some t'
            \<and> truthy (get_choice key' (game_state_json t)) \<longrightarrow>
          get_choice key' (game_state_json t') = get_choice key' (game_state_json t))"
proof -
  let ?gs = "game_state_json s"
  let ?gs1 = "set_choice key (JStr c) ?gs"
  let ?s1 = "s\<lparr>game_state_json := ?gs1\<rparr>"
  let ?w0 = "case timeoutId s of None \<Rightarrow> w | Some h \<Rightarrow> clearTimeout h w"
  let ?after = "on_callback_query env cq w"
  let ?both = "truthy (p1_choice ?gs1) \<and> truthy (p2_choice ?gs1)"
  let ?ok3 = "answer_ok env \<and> edit_ok env \<and> edit2_ok env"
  let ?ans = "AnswerCallbackQuery (cq_id cq) (Some ''Your choice is locked in!'')"
  let ?edit = "EditMessageText TxtChoiceLocked (DirectTo (uid (cq_from cq)))
                 (Some (cq_message_id cq)) False"
  let ?verdict = "(k, pvp_finalStatus (result (determineRPSOutcome (p1_choice ?gs1) (p2_choice ?gs1)
                            (JStr (escapeHTML (initiatorName ?gs1)))
                            (JStr (escapeHTML (opponentName ?gs1))))))"
  note R = submit_found [OF d s]
  have p0: "param0 (c # ps) = JStr c" by simp
  have taken: "?after = awaited (answer_ok env) ?ans
                 (awaited (edit_ok env) ?edit
                    (\<lambda>w3. if ?both then pvp_resolve env k ?s1 ?gs1 w3 else w3))
                 (store_session k ?s1 ?w0)"
    if u: "\<not> truthy (get_choice key ?gs)"
    using pvp_submit_taken [OF key u, of env "c # ps" k ?w0]
    by (simp only: R p0)
  have again: "?after = awaited (answer_ok env)
                 (AnswerCallbackQuery (cq_id cq) (Some ''You have already made a choice.''))
                 (\<lambda>w1. w1) ?w0"
    if t: "truthy (get_choice key ?gs)"
  proof -
    have "pvp_submit env cq (c # ps) k s ?w0 =
            awaited (answer_ok env)
              (AnswerCallbackQuery (cq_id cq) (Some ''You have already made a choice.''))
              (\<lambda>w1. w1) ?w0"
      using key t by (intro pvp_submit_rejected) simp
    then show ?thesis by (simp only: R)
  qed
  have A: "activeHelperGames ?after =
             (if ?both \<and> ?ok3 \<and> write_ok env then (activeHelperGames w)(k := None)
              else (activeHelperGames w)(k \<mapsto> ?s1))
           \<and> get_choice key ?gs1 = JStr c \<and> truthy (get_choice key ?gs1)
           \<and> status ?gs1 = status ?gs
           \<and> (\<not> ?both \<longrightarrow>
                sql ?after = sql w \<and> rps_sessions ?after = rps_sessions w
                \<and> transport ?after = transport w @
                    (if answer_ok env then ?ans # (if edit_ok env then [?edit] else []) else []))"
    if u: "\<not> truthy (get_choice key ?gs)"
  proof (intro conjI impI)
    show "activeHelperGames ?after =
             (if ?both \<and> ?ok3 \<and> write_ok env then (activeHelperGames w)(k := None)
              else (activeHelperGames w)(k \<mapsto> ?s1))"
      by (rule taken_fields(1) [OF taken [OF u]])
    show "get_choice key ?gs1 = JStr c"
      by (rule get_set_choice)
    show "truthy (get_choice key ?gs1)"
      using c by (simp add: get_set_choice)
    show "status ?gs1 = status ?gs"
      by (rule status_set_choice)
  next
    assume n: "\<not> ?both"
    from taken_fields(2) [OF taken [OF u]] n show "sql ?after = sql w"
      by simp
    show "rps_sessions ?after = rps_sessions w"
      by (rule taken_fields(3) [OF taken [OF u] n])
    show "transport ?after = transport w @
            (if answer_ok env then ?ans # (if edit_ok env then [?edit] else []) else [])"
      by (rule taken_fields(4) [OF taken [OF u] n])
  qed
  have B: "activeHelperGames ?after = activeHelperGames w
           \<and> sql ?after = sql w \<and> rps_sessions ?after = rps_sessions w
           \<and> transport ?after = transport w @
                (if answer_ok env
                 then [AnswerCallbackQuery (cq_id cq) (Some ''You have already made a choice.'')]
                 else [])"
    if t: "truthy (get_choice key ?gs)"
    by (intro conjI rejected_fields [OF again [OF t]])
  have C: "final_writes (sql ?after) = final_writes (sql w) @
             (if \<not> truthy (get_choice key ?gs) \<and> ?both \<and> ?ok3 then [?verdict] else [])"
  proof (cases "truthy (get_choice key ?gs)")
    case True
    from rejected_fields(2) [OF again [OF True]] True show ?thesis
      by simp
  next
    case False
    from taken_fields(2) [OF taken [OF False]] False show ?thesis
      by (simp add: final_writes_append)
  qed
  have D: "length (final_writes (sql (run_callbacks evs w'))) \<le> Suc (length (final_writes (sql w')))"
    by (rule verdict_at_most_once [OF evs])
  have E: "get_choice key' (game_state_json t') = get_choice key' (game_state_json t)"
    if "activeHelperGames w' k = Some t \<and> activeHelperGames (run_callbacks evs w') k = Some t'
          \<and> truthy (get_choice key' (game_state_json t))"
    using that choices_kept_run [OF evs, of w' t t' key'] by simp
  from A B C D E show ?thesis
    unfolding Let_def by blast
qed

text \<open>
  An instance: user 100 submits rock in the sample duel; then, from the world so reached,
  user 100 submits paper, user 200 submits scissors with the finalizing write failing,
  and user 200 submits rock.
\<close>

theorem pvp_submission_locks_one_choice_witness:
  "activeHelperGames sample_pvp_world 1 = Some sample_pvp_session
   \<and> map_option (\<lambda>s. (p1_choice (game_state_json s), p2_choice (game_state_json s)))
       (activeHelperGames (on_callback_query (sample_env True)
          (sample_callback ''rps_helper_pvp_submit:1:rock'' ''100'') sample_pvp_world) 1)
     = Some (JStr ''rock'', JNull)
   \<and> final_writes (sql (on_callback_query (sample_env True)
          (sample_callback ''rps_helper_pvp_submit:1:rock'' ''100'') sample_pvp_world)) = []
   \<and> length (final_writes (sql (run_callbacks
         [(sample_env True, sample_callback ''rps_helper_pvp_submit:1:paper'' ''100''),
          (sample_env False, sample_callback ''rps_helper_pvp_submit:1:scissors'' ''200''),
          (sample_env True, sample_callback ''rps_helper_pvp_submit:1:rock'' ''200'')]
         sample_one_choice_world))) \<le> 1
   \<and> map_option (\<lambda>s. (p1_choice (game_state_json s), p2_choice (game_state_json s)))
       (activeHelperGames (run_callbacks
         [(sample_env True, sample_callback ''rps_helper_pvp_submit:1:paper'' ''100''),
          (sample_env False, sample_callback ''rps_helper_pvp_submit:1:scissors'' ''200''),
          (sample_env True, sample_callback ''rps_helper_pvp_submit:1:rock'' ''200'')]
         sample_one_choice_world) 1)
     = Some (JStr ''rock'', JStr ''scissors'')"
proof -
  let ?cq = "sample_callback ''rps_helper_pvp_submit:1:rock'' ''100''"
  let ?evs = "[(sample_env True, sample_callback ''rps_helper_pvp_submit:1:paper'' ''100''),
          (sample_env False, sample_callback ''rps_helper_pvp_submit:1:scissors'' ''200''),
          (sample_env True, sample_callback ''rps_helper_pvp_submit:1:rock'' ''200'')]"
  let ?t = "sample_pvp_session\<lparr>game_state_json :=
              (game_state_json sample_pvp_session)\<lparr>p1_choice := JStr ''rock''\<rparr>\<rparr>"
  let ?t' = "sample_pvp_session\<lparr>game_state_json :=
              (game_state_json sample_pvp_session)\<lparr>p1_choice := JStr ''rock'',
                 p2_choice := JStr ''scissors''\<rparr>\<rparr>"
  have d: "decode_data (cq_data ?cq) = (''rps_helper_pvp_submit'', Some 1, ''rock'' # [])"
    by code_simp
  have key: "player_key_of (uid (cq_from ?cq)) sample_pvp_session = Some P1_choice"
    by code_simp
  have c: "''rock'' \<noteq> []" by simp
  have evs: "\<forall>ev \<in> set ?evs. is_submit_for 1 ev"
    by code_simp
  have f: "final_writes (sql sample_pvp_world) = []"
    by code_simp
  have f1: "final_writes (sql sample_one_choice_world) = []"
    by code_simp
  have t: "activeHelperGames sample_one_choice_world 1 = Some ?t"
    by code_simp
  have t': "activeHelperGames (run_callbacks ?evs sample_one_choice_world) 1 = Some ?t'"
    by code_simp
  have g: "game_state_json sample_pvp_session = \<lparr>status = JStr ''pvp_awaiting_choices'',
       initiatorName = JStr ''alice'',
       opponentName = JStr ''bob'', helperMessageId = Some 7, p1_choice = JNull,
       p2_choice = JNull, bot_choice = JUndefined\<rparr>"
    by (simp add: sample_pvp_session_def)
  have o: "answer_ok (sample_env True)" "edit_ok (sample_env True)" "edit2_ok (sample_env True)"
    by (simp_all add: sample_env_def)
  show ?thesis
    using pvp_submission_locks_one_choice [OF d sample_pvp_session_found key c evs,
            of "sample_env True" sample_one_choice_world ?t ?t' P1_choice]
      sample_pvp_session_found f f1 t t'
    by (simp add: Let_def g o)
qed

text \<open>
  C7 as stated fails: user 100 submits rock in the sample duel, user 300 then sends the
  accept event of the offer, which enters play again and clears both fields, and user
  100 submits paper, which is taken and not rejected.
\<close>

theorem second_choice_after_accept:
  "map_option (p1_choice \<circ> game_state_json)
     (activeHelperGames (run_callbacks
        [(sample_env True, sample_callback ''rps_helper_pvp_submit:1:rock'' ''100'')]
        sample_pvp_world) 1)
     = Some (JStr ''rock'')
   \<and> map_option (p1_choice \<circ> game_state_json)
       (activeHelperGames (run_callbacks
          [(sample_env True, sample_callback ''rps_helper_pvp_submit:1:rock'' ''100''),
           (sample_env True, sample_callback ''cf_helper_accept_pvp:1'' ''300''),
           (sample_env True, sample_callback ''rps_helper_pvp_submit:1:paper'' ''100'')]
          sample_pvp_world) 1)
     = Some (JStr ''paper'')"
  by code_simp

lemma sql_pvp_submit_resume:
  "sql (pvp_submit_resume env cq k True s w) =
     sql w @ (if answer_ok env \<and> edit_ok env
                 \<and> truthy (p1_choice (game_state_json s)) \<and> truthy (p2_choice (game_state_json s))
                 \<and> edit2_ok env
              then [SqlFinalUpdate k (pvp_finalStatus (result
                      (determineRPSOutcome (p1_choice (game_state_json s)) (p2_choice (game_state_json s))
                         (JStr (escapeHTML (initiatorName (game_state_json s))))
                         (JStr (escapeHTML (opponentName (game_state_json s)))))))]
              else [])"
  by (simp add: pvp_submit_resume_def Let_def awaited_def sql_bot_call sql_pvp_resolve)

text \<open>
  Overlapping submissions: user 100 submits rock in the sample duel and, while that
  handler is suspended, user 200 submits paper. Each handler finds both fields set when
  it resumes, so the verdict is computed and the finalizing write made twice.
\<close>

lemma overlapping_submissions_two_verdicts:
  "final_writes (sql (overlapped_submits
      (sample_env True) (sample_callback ''rps_helper_pvp_submit:1:rock'' ''100'')
      (sample_env True) (sample_callback ''rps_helper_pvp_submit:1:paper'' ''200'')
      1 sample_pvp_world))
     = [(1, ''completed_p2_win''), (1, ''completed_p2_win'')]"
proof -
  let ?A = "sample_callback ''rps_helper_pvp_submit:1:rock'' ''100''"
  let ?B = "sample_callback ''rps_helper_pvp_submit:1:paper'' ''200''"
  let ?sA = "sample_pvp_session\<lparr>game_state_json :=
               (game_state_json sample_pvp_session)\<lparr>p1_choice := JStr ''rock''\<rparr>\<rparr>"
  let ?sB = "sample_pvp_session\<lparr>game_state_json :=
               (game_state_json sample_pvp_session)\<lparr>p1_choice := JStr ''rock'',
                  p2_choice := JStr ''paper''\<rparr>\<rparr>"
  have dA: "snd (snd (decode_data (cq_data ?A))) = [''rock'']"
    by code_simp
  have dB: "snd (snd (decode_data (cq_data ?B))) = [''paper'']"
    by code_simp
  have bA: "pvp_submit_begin ?A [''rock''] 1 sample_pvp_session v = (True, ?sA, store_session 1 ?sA v)"
    for v
    by (simp add: pvp_submit_begin_def Let_def player_key_of_def sample_callback_def
          sample_pvp_session_def)
  have bB: "pvp_submit_begin ?B [''paper''] 1 ?sA v = (True, ?sB, store_session 1 ?sB v)" for v
    by (simp add: pvp_submit_begin_def Let_def player_key_of_def sample_callback_def
          sample_pvp_session_def)
  have o: "answer_ok (sample_env True)" "edit_ok (sample_env True)" "edit2_ok (sample_env True)"
    by (simp_all add: sample_env_def)
  have g: "p1_choice (game_state_json ?sB) = JStr ''rock''"
    "p2_choice (game_state_json ?sB) = JStr ''paper''"
    by simp_all
  have r: "pvp_finalStatus (result (determineRPSOutcome (JStr ''rock'') (JStr ''paper'') n1 n2))
             = ''completed_p2_win''" for n1 n2
    by (simp add: pvp_finalStatus_def result_on_choices is_choice_cases spec_beats_def)
  have q: "sql sample_pvp_world = []"
    by code_simp
  have "sql (overlapped_submits (sample_env True) ?A (sample_env True) ?B 1 sample_pvp_world)
          = [SqlFinalUpdate 1 ''completed_p2_win'', SqlFinalUpdate 1 ''completed_p2_win'']"
    by (simp only: overlapped_submits_def sample_pvp_session_found option.case dA dB bA bB
          Let_def prod.case sql_pvp_submit_resume o g r q store_fields clear_fields truthy.simps
          if_True simp_thms append.simps) simp
  then show ?thesis
    by simp
qed

end
